(* ===== verification/Prelude.thy ===== *)
theory Prelude
  imports Complex_Main
begin

text \<open>
  Shared vocabulary of the invoice-builder development (\<open>src/script.js\<close>).
  JavaScript strings are modelled as \<open>string\<close> (lists of 8-bit \<open>char\<close>s).
  The script writes exactly one code unit outside ASCII, U+20A6 NAIRA SIGN, into the
  tables; it is represented by the character \<open>0xA6\<close>, which no other part of the
  model produces. Decimal digit strings, used both by the number formatter and by the
  date formatter, live here together with their round-trip lemmas, as do the
  whitespace class of ECMAScript (\<open>\s\<close> and \<open>String.prototype.trim\<close>) restricted
  to 8-bit code units.
\<close>

type_synonym jstring = string

named_theorems eval_simps "rules that evaluate the model on concrete inputs"

section \<open>Characters\<close>

definition naira :: char where
  "naira = CHR 0xA6"

definition is_digit :: "char \<Rightarrow> bool" where
  "is_digit c \<longleftrightarrow> 48 \<le> (of_char c :: nat) \<and> (of_char c :: nat) \<le> 57"

text \<open>
  ECMAScript \<open>WhiteSpace\<close> and \<open>LineTerminator\<close> code units below 256: TAB, LF, VT, FF,
  CR, SPACE and NO-BREAK SPACE. Both \<open>\s\<close> in a regular expression and
  \<open>String.prototype.trim\<close> use exactly this class.
\<close>

definition js_space :: "char \<Rightarrow> bool" where
  "js_space c \<longleftrightarrow> (of_char c :: nat) \<in> {9, 10, 11, 12, 13, 32, 160}"

text \<open>A regular-expression word character (\<open>\w\<close>): \<open>[A-Za-z0-9_]\<close>.\<close>

definition is_word :: "char \<Rightarrow> bool" where
  "is_word c \<longleftrightarrow> is_digit c \<or> (65 \<le> (of_char c :: nat) \<and> (of_char c :: nat) \<le> 90)
     \<or> (97 \<le> (of_char c :: nat) \<and> (of_char c :: nat) \<le> 122) \<or> c = CHR ''_''"

text \<open>\<open>String.prototype.trim\<close>: leading and trailing white space removed.\<close>

definition js_trim :: "jstring \<Rightarrow> jstring" where
  "js_trim s = rev (dropWhile js_space (rev (dropWhile js_space s)))"

section \<open>Decimal digit strings\<close>

definition digit_char :: "nat \<Rightarrow> char" where
  "digit_char d = ''0123456789'' ! d"

definition digit_val :: "char \<Rightarrow> nat" where
  "digit_val c = of_char c - 48"

text \<open>The decimal numeral of a natural number, as \<open>Number::toString\<close> prints an integer.\<close>

fun nat_str :: "nat \<Rightarrow> jstring" where
  "nat_str n = (if n < 10 then [digit_char n] else nat_str (n div 10) @ [digit_char (n mod 10)])"

declare nat_str.simps [simp del, eval_simps]

text \<open>The value of a string of decimal digits, most significant first.\<close>

definition digits_val :: "jstring \<Rightarrow> nat" where
  "digits_val ds = foldl (\<lambda>acc c. 10 * acc + digit_val c) 0 ds"

text \<open>\<open>String(n)\<close> for an integral number.\<close>

definition int_str :: "int \<Rightarrow> jstring" where
  "int_str i = (if i < 0 then CHR ''-'' # nat_str (nat (- i)) else nat_str (nat i))"

section \<open>Evaluation of rational floors\<close>

lemma floor_num_div [eval_simps]: "\<lfloor>(numeral a :: rat) / numeral b\<rfloor> = numeral a div numeral b"
  using floor_divide_of_int_eq [of "numeral a" "numeral b", where 'a = rat] by simp

lemma floor_neg_num_div [eval_simps]: "\<lfloor>- (numeral a :: rat) / numeral b\<rfloor> = - numeral a div numeral b"
  using floor_divide_of_int_eq [of "- numeral a" "numeral b", where 'a = rat] by simp

declare digit_char_def [eval_simps]

section \<open>Lemmas on characters and digits\<close>

lemma digit_char_digit [simp]: "d < 10 \<Longrightarrow> is_digit (digit_char d)"
  by (auto simp: digit_char_def is_digit_def less_Suc_eq numeral_eq_Suc)

lemma digit_val_digit_char [simp]: "d < 10 \<Longrightarrow> digit_val (digit_char d) = d"
  by (auto simp: digit_char_def digit_val_def less_Suc_eq numeral_eq_Suc)

lemma digit_val_less: "is_digit c \<Longrightarrow> digit_val c < 10"
  unfolding is_digit_def digit_val_def by linarith

lemma digit_not_space [simp]: "is_digit c \<Longrightarrow> \<not> js_space c"
  by (auto simp: is_digit_def js_space_def)

lemma digit_is_word: "is_digit c \<Longrightarrow> is_word c"
  by (simp add: is_word_def)

lemma naira_not_digit [simp]: "\<not> is_digit naira"
  by (simp add: naira_def is_digit_def)

lemma naira_not_space [simp]: "\<not> js_space naira"
  by (simp add: naira_def js_space_def)

lemma digit_char_not_naira [simp]: "d < 10 \<Longrightarrow> digit_char d \<noteq> naira"
  using naira_not_digit digit_char_digit by metis

lemma digit_not_comma [simp]: "is_digit c \<Longrightarrow> c \<noteq> CHR '',''"
  by (auto simp: is_digit_def)

lemma js_trim_idem [simp]: "js_trim (js_trim s) = js_trim s"
proof -
  define u where "u = dropWhile js_space s"
  define v where "v = dropWhile js_space (rev u)"
  have hu: "u \<noteq> [] \<Longrightarrow> \<not> js_space (hd u)" unfolding u_def by (rule hd_dropWhile)
  have hv: "dropWhile js_space v = v"
    unfolding v_def by (cases "dropWhile js_space (rev u) = []") (simp_all add: dropWhile_eq_self_iff hd_dropWhile)
  have "rev u = takeWhile js_space (rev u) @ v" unfolding v_def by simp
  then have uv: "u = rev v @ rev (takeWhile js_space (rev u))" by (metis rev_append rev_rev_ident)
  have "dropWhile js_space (rev v) = rev v"
  proof (cases "rev v = []")
    case False
    have "u \<noteq> []" using uv False by (metis Nil_is_append_conv)
    moreover have "hd u = hd (rev v)" using False by (subst uv) (simp add: hd_append2)
    ultimately have "hd (rev v) = hd u" "u \<noteq> []" by simp_all
    then show ?thesis using hu by (simp add: dropWhile_eq_self_iff)
  qed simp
  then show ?thesis by (simp add: js_trim_def u_def [symmetric] v_def [symmetric] hv)
qed

lemma digits_val_append [simp]:
  "digits_val (xs @ ys) = digits_val xs * 10 ^ length ys + digits_val ys"
proof (induction ys rule: rev_induct)
  case Nil
  then show ?case by (simp add: digits_val_def)
next
  case (snoc y ys)
  then show ?case by (simp add: digits_val_def algebra_simps)
qed

lemma digits_val_Nil [simp]: "digits_val [] = 0"
  by (simp add: digits_val_def)

lemma digits_val_single [simp]: "digits_val [c] = digit_val c"
  by (simp add: digits_val_def)

lemma nat_str_digits [simp]: "\<forall>c \<in> set (nat_str n). is_digit c"
  by (induction n rule: nat_str.induct) (subst nat_str.simps, simp)

lemma nat_str_nonempty [simp]: "nat_str n \<noteq> []"
  by (subst nat_str.simps) simp

lemma nat_str_small: "n < 10 \<Longrightarrow> nat_str n = [digit_char n]"
  by (subst nat_str.simps) simp

lemma nat_str_step: "10 \<le> n \<Longrightarrow> nat_str n = nat_str (n div 10) @ [digit_char (n mod 10)]"
  by (subst nat_str.simps) simp

lemma nat_str_length:
  "10 ^ k \<le> n \<Longrightarrow> n < 10 ^ Suc k \<Longrightarrow> length (nat_str n) = Suc k"
proof (induction k arbitrary: n)
  case 0
  then show ?case by (simp add: nat_str_small)
next
  case (Suc k)
  then have "10 ^ k \<le> n div 10" "n div 10 < 10 ^ Suc k"
    by (simp_all add: less_eq_div_iff_mult_less_eq div_less_iff_less_mult mult.commute)
  moreover have "10 \<le> n"
  proof (rule order_trans [OF _ Suc.prems(1)])
    show "(10::nat) \<le> 10 ^ Suc k" by (induction k) simp_all
  qed
  ultimately show ?case using Suc.IH by (simp add: nat_str_step)
qed

lemma nat_str_length_le2: "n < 100 \<Longrightarrow> length (nat_str n) \<le> 2"
  using nat_str_length [of 1 n] by (cases "n < 10") (simp_all add: nat_str_small)

lemma digits_val_zeros [simp]: "digits_val (replicate k (CHR ''0'')) = 0"
proof (induction k)
  case (Suc k)
  have "replicate (Suc k) (CHR ''0'') = replicate k (CHR ''0'') @ [CHR ''0'']"
    by (simp add: replicate_append_same)
  with Suc show ?case by (simp add: digit_val_def)
qed simp

lemma digits_val_nat_str [simp]: "digits_val (nat_str n) = n"
proof (induction n rule: nat_str.induct)
  case (1 n)
  show ?case
  proof (cases "n < 10")
    case True
    then show ?thesis by (subst nat_str.simps) simp
  next
    case False
    with "1.IH" have "digits_val (nat_str (n div 10)) = n div 10" by simp
    with False show ?thesis by (subst nat_str.simps) simp
  qed
qed

lemma digits_val_bound: "\<forall>c \<in> set ds. is_digit c \<Longrightarrow> digits_val ds < 10 ^ length ds"
proof (induction ds rule: rev_induct)
  case Nil
  then show ?case by simp
next
  case (snoc c ds)
  then have "digits_val ds < 10 ^ length ds" and "digit_val c < 10"
    by (auto intro: digit_val_less)
  then show ?case by simp
qed

end
