(* ===== verification/Js_Number.thy ===== *)
theory Js_Number
  imports Prelude
begin

text \<open>
  The ECMAScript number operations that \<open>src/script.js\<close> calls: \<open>parseFloat\<close>
  (lines 23, 28, 80, 81), the \<open>|| 0\<close> fallback (same lines), \<open>+\<close> (lines 25, 29),
  \<open>*\<close> (line 88) and \<open><=\<close> (line 83). These are language built-ins, not code of the
  repository, so they are modelled from ECMA-262.
  A number is a value of \<open>jsnum\<close>: a finite value, kept as an exact rational, or one
  of \<open>Infinity\<close>, \<open>-Infinity\<close>, \<open>NaN\<close>. Binary rounding of IEEE doubles is not
  modelled: arithmetic on finite values is exact, and overflow of a literal to
  \<open>Infinity\<close> (\<open>parseFloat("1e400")\<close>) is not reproduced. Negative zero is
  identified with zero; every use of a number in the script goes through \<open>|| 0\<close>
  or a comparison, where the two agree, except \<open>toFixed\<close>, see \<open>Number_Format\<close>.
\<close>

datatype jsnum = Fin rat | PInf | MInf | NaN

section \<open>Arithmetic and comparison\<close>

fun js_neg :: "jsnum \<Rightarrow> jsnum" where
  "js_neg (Fin x) = Fin (- x)"
| "js_neg PInf = MInf"
| "js_neg MInf = PInf"
| "js_neg NaN = NaN"

text \<open>Number::add: \<open>NaN\<close> absorbs, opposite infinities give \<open>NaN\<close>.\<close>

fun js_add :: "jsnum \<Rightarrow> jsnum \<Rightarrow> jsnum" where
  "js_add (Fin a) (Fin b) = Fin (a + b)"
| "js_add NaN _ = NaN"
| "js_add _ NaN = NaN"
| "js_add PInf MInf = NaN"
| "js_add MInf PInf = NaN"
| "js_add PInf _ = PInf"
| "js_add _ PInf = PInf"
| "js_add MInf _ = MInf"
| "js_add _ MInf = MInf"

text \<open>The sign of a non-\<open>NaN\<close> number, for Number::multiply on infinities.\<close>

fun js_sign :: "jsnum \<Rightarrow> rat" where
  "js_sign (Fin x) = sgn x"
| "js_sign PInf = 1"
| "js_sign MInf = -1"
| "js_sign NaN = 0"

text \<open>Number::multiply: an infinity times zero is \<open>NaN\<close>, otherwise the signs multiply.\<close>

fun js_mul :: "jsnum \<Rightarrow> jsnum \<Rightarrow> jsnum" where
  "js_mul NaN _ = NaN"
| "js_mul _ NaN = NaN"
| "js_mul (Fin a) (Fin b) = Fin (a * b)"
| "js_mul x y =
     (let s = js_sign x * js_sign y in if s = 0 then NaN else if 0 < s then PInf else MInf)"

text \<open>The relational comparison \<open>x <= y\<close>: false as soon as one side is \<open>NaN\<close>.\<close>

fun js_le :: "jsnum \<Rightarrow> jsnum \<Rightarrow> bool" where
  "js_le NaN _ = False"
| "js_le _ NaN = False"
| "js_le MInf _ = True"
| "js_le _ PInf = True"
| "js_le PInf _ = False"
| "js_le _ MInf = False"
| "js_le (Fin a) (Fin b) = (a \<le> b)"

text \<open>ToBoolean on a number: false exactly for zero and \<open>NaN\<close>.\<close>

fun js_truthy :: "jsnum \<Rightarrow> bool" where
  "js_truthy (Fin x) = (x \<noteq> 0)"
| "js_truthy NaN = False"
| "js_truthy _ = True"

text \<open>The expression \<open>x || 0\<close> on a number \<open>x\<close>.\<close>

definition or_zero :: "jsnum \<Rightarrow> jsnum" where
  "or_zero x = (if js_truthy x then x else Fin 0)"

section \<open>parseFloat\<close>

text \<open>
  \<open>parseFloat(s)\<close> strips leading white space and reads the longest prefix of the
  rest that is a \<open>StrDecimalLiteral\<close>: an optional sign, then \<open>Infinity\<close>, or
  digits with an optional fraction and an optional exponent. A prefix that is not such
  a literal gives \<open>NaN\<close>; characters after the literal are ignored. The mantissa
  digits \<open>d1.d2\<close> and the exponent \<open>e\<close> give the value
  \<open>(d1 d2) \<times> 10^(e - |d2|)\<close>.
\<close>

definition decimal_value :: "nat \<Rightarrow> int \<Rightarrow> rat" where
  "decimal_value m e = (if 0 \<le> e then of_nat m * 10 ^ nat e else of_nat m / 10 ^ nat (- e))"

text \<open>The digits of a \<open>SignedInteger\<close>; without any digit there is no exponent.\<close>

definition exp_digits :: "int \<Rightarrow> jstring \<Rightarrow> int" where
  "exp_digits sg r = (let ds = takeWhile is_digit r in if ds = [] then 0 else sg * int (digits_val ds))"

text \<open>The \<open>ExponentPart\<close> that follows the mantissa, or 0 when there is none.\<close>

definition exponent_part :: "jstring \<Rightarrow> int" where
  "exponent_part r =
     (case r of
        c # r' \<Rightarrow>
          (if c = CHR ''e'' \<or> c = CHR ''E'' then
             (case r' of
                s # r'' \<Rightarrow>
                  (if s = CHR ''+'' then exp_digits 1 r''
                   else if s = CHR ''-'' then exp_digits (-1) r''
                   else exp_digits 1 r')
              | [] \<Rightarrow> 0)
           else 0)
      | [] \<Rightarrow> 0)"

text \<open>A \<open>StrUnsignedDecimalLiteral\<close> at the start of the string.\<close>

definition parse_unsigned :: "jstring \<Rightarrow> jsnum" where
  "parse_unsigned t =
     (if take 8 t = ''Infinity'' then PInf
      else
        (let d1 = takeWhile is_digit t; r1 = dropWhile is_digit t;
             (d2, r2) = (case r1 of
                           c # r \<Rightarrow> (if c = CHR ''.'' then (takeWhile is_digit r, dropWhile is_digit r)
                                    else ([], r1))
                         | [] \<Rightarrow> ([], []))
         in if d1 = [] \<and> d2 = [] then NaN
            else Fin (decimal_value (digits_val (d1 @ d2)) (exponent_part r2 - int (length d2)))))"

definition parse_float :: "jstring \<Rightarrow> jsnum" where
  "parse_float s =
     (case dropWhile js_space s of
        [] \<Rightarrow> NaN
      | c # r \<Rightarrow>
          (if c = CHR ''-'' then js_neg (parse_unsigned r)
           else if c = CHR ''+'' then parse_unsigned r
           else parse_unsigned (c # r)))"

section \<open>Lemmas\<close>

lemma or_zero_not_NaN [simp]: "or_zero x \<noteq> NaN"
  by (cases x) (auto simp: or_zero_def)

lemma or_zero_Fin [simp]: "or_zero (Fin x) = Fin x"
  by (simp add: or_zero_def)

lemma or_zero_NaN [simp]: "or_zero NaN = Fin 0"
  by (simp add: or_zero_def)

lemma or_zero_idem [simp]: "or_zero (or_zero x) = or_zero x"
  by (cases x) (auto simp: or_zero_def)

lemma js_add_Fin_fold:
  "foldl js_add (Fin a) (map Fin xs) = Fin (a + sum_list xs)"
  by (induction xs arbitrary: a) (simp_all add: add.assoc)

lemma js_mul_pos:
  assumes "\<not> js_le x (Fin 0)" and "\<not> js_le y (Fin 0)" and "x \<noteq> NaN" and "y \<noteq> NaN"
  shows "\<not> js_le (js_mul x y) (Fin 0) \<and> js_mul x y \<noteq> NaN"
  using assms by (cases x; cases y) (auto simp: Let_def not_le mult_le_0_iff)

lemma js_le_zero_NaN: "js_le x (Fin 0) \<Longrightarrow> x \<noteq> NaN"
  by (cases x) auto

lemma parse_unsigned_digit_lead:
  assumes "is_digit c"
  shows "take 8 (c # r) \<noteq> ''Infinity''"
  using assms by (auto simp: is_digit_def)

lemma decimal_value_scaled:
  "decimal_value m (- int k) = of_nat m / 10 ^ k"
  unfolding decimal_value_def by (cases "k = 0") auto

text \<open>
  A fixed-point numeral \<open>d1.d2\<close> that is not followed by an exponent reads back as
  \<open>(d1 d2) / 10^|d2|\<close>: the form in which \<open>toFixed\<close> prints numbers.
\<close>

lemma parse_unsigned_fixed:
  assumes d1: "d1 \<noteq> []" "\<forall>c \<in> set d1. is_digit c"
    and d2: "\<forall>c \<in> set d2. is_digit c"
    and rest: "rest = [] \<or> (\<not> is_digit (hd rest) \<and> hd rest \<noteq> CHR ''e'' \<and> hd rest \<noteq> CHR ''E'')"
  shows "parse_unsigned (d1 @ CHR ''.'' # d2 @ rest) =
           Fin (of_nat (digits_val (d1 @ d2)) / 10 ^ length d2)"
proof -
  obtain c r where c: "d1 = c # r" using d1(1) by (cases d1) auto
  have inf: "take 8 (d1 @ CHR ''.'' # d2 @ rest) \<noteq> ''Infinity''"
    using c d1(2) parse_unsigned_digit_lead [of c "r @ CHR ''.'' # d2 @ rest"] by simp
  have dot: "\<not> is_digit (CHR ''.'')" by (simp add: is_digit_def)
  have tw1: "takeWhile is_digit (d1 @ CHR ''.'' # d2 @ rest) = d1"
    and dw1: "dropWhile is_digit (d1 @ CHR ''.'' # d2 @ rest) = CHR ''.'' # d2 @ rest"
    using d1(2) dot by (simp_all add: takeWhile_append2 dropWhile_append2)
  have tw2: "takeWhile is_digit (d2 @ rest) = d2"
    using d2 rest by (cases rest) (auto simp: takeWhile_append2)
  have dw2: "dropWhile is_digit (d2 @ rest) = rest"
    using d2 rest by (cases rest) (auto simp: dropWhile_append2 dropWhile_eq_Nil_conv)
  have ex: "exponent_part rest = 0"
    using rest by (cases rest) (auto simp: exponent_part_def)
  show ?thesis
    using inf tw1 dw1 tw2 dw2 ex d1(1)
    by (simp add: parse_unsigned_def decimal_value_scaled)
qed

end
