(* ===== verification/Number_Format.thy ===== *)
theory Number_Format
  imports Js_Number
begin

text \<open>
  \<open>formatNumber\<close> (\<open>src/script.js\<close> lines 10-13):
  \<^verbatim>\<open>number.toFixed(2).toString().replace(/\B(?=(\d{3})+(?!\d))/g, ',')\<close>.
  \<open>toFixed(2)\<close> is the built-in of ECMA-262 (Number.prototype.toFixed), modelled from
  the standard: the sign is printed separately, the magnitude is rounded to the nearest
  hundredth with ties going up, and magnitudes of \<open>10^21\<close> or more are printed by
  \<open>Number::toString\<close> in exponent form. \<open>.toString()\<close> on a string is the
  identity. The regular-expression replacement is translated position by position:
  a global replace with a pattern that only matches the empty string tests every
  position of the string once, from left to right, against the original text.
\<close>

section \<open>toFixed(2)\<close>

text \<open>
  Steps 10-11 of toFixed with \<open>f = 2\<close>: the digits of the integer \<open>n\<close>, padded with
  zeros to at least three, with a point before the last two.
\<close>

definition fixed_digits :: "nat \<Rightarrow> jstring" where
  "fixed_digits n =
     (let m = nat_str n;
          m' = (if length m \<le> 2 then replicate (3 - length m) (CHR ''0'') @ m else m);
          k = length m'
      in take (k - 2) m' @ CHR ''.'' # drop (k - 2) m')"

text \<open>
  \<open>Number::toString\<close> of a magnitude \<open>a \<ge> 10^21\<close>: a double that large is an integer,
  printed as its first digit, the remaining significant digits after a point, and
  \<open>e+\<close> with the decimal exponent. The model prints every significant digit of
  \<open>\<lfloor>a\<rfloor>\<close>; JavaScript prints the shortest digit string that identifies the double.
\<close>

definition big_to_string :: "rat \<Rightarrow> jstring" where
  "big_to_string a =
     (let ds = nat_str (nat \<lfloor>a\<rfloor>);
          sig = rev (dropWhile (\<lambda>c. c = CHR ''0'') (rev ds))
      in hd sig # (if tl sig = [] then [] else CHR ''.'' # tl sig) @ ''e+'' @ nat_str (length ds - 1))"

fun to_fixed2 :: "jsnum \<Rightarrow> jstring" where
  "to_fixed2 NaN = ''NaN''"
| "to_fixed2 PInf = ''Infinity''"
| "to_fixed2 MInf = ''-Infinity''"
| "to_fixed2 (Fin x) =
     (let (s, a) = (if x < 0 then (''-'', - x) else ([], x))
      in s @ (if 10 ^ 21 \<le> a then big_to_string a else fixed_digits (nat \<lfloor>a * 100 + 1 / 2\<rfloor>)))"

text \<open>The value that \<open>toFixed(2)\<close> displays for a finite argument below \<open>10^21\<close>.\<close>

definition round2 :: "rat \<Rightarrow> rat" where
  "round2 x = (if x < 0 then - (of_int \<lfloor>- x * 100 + 1 / 2\<rfloor> / 100) else of_int \<lfloor>x * 100 + 1 / 2\<rfloor> / 100)"

text \<open>The number of hundredths that toFixed(2) prints for the magnitude of \<open>x\<close>,
  and the two decimals printed for \<open>n\<close> hundredths.\<close>

abbreviation cents :: "rat \<Rightarrow> nat" where
  "cents x \<equiv> nat \<lfloor>\<bar>x\<bar> * 100 + 1 / 2\<rfloor>"

abbreviation frac_digits :: "nat \<Rightarrow> jstring" where
  "frac_digits n \<equiv> [digit_char (n div 10 mod 10), digit_char (n mod 10)]"

section \<open>The thousands separator\<close>

text \<open>
  The lookahead \<open>(?=(\d{3})+(?!\d))\<close>: one or more groups of three digits that are
  not followed by a further digit. The greedy \<open>+\<close> first tries another group and
  backtracks to stopping here; the resulting test is the disjunction below.
\<close>

fun lookahead3 :: "jstring \<Rightarrow> bool" where
  "lookahead3 (a # b # c # r) =
     (is_digit a \<and> is_digit b \<and> is_digit c \<and> (lookahead3 r \<or> \<not> (r \<noteq> [] \<and> is_digit (hd r))))"
| "lookahead3 _ = False"

text \<open>
  The scan of the global replace. \<open>w\<close> says whether the character before the
  current position is a word character (the start of the string is not); \<open>\B\<close> holds
  where both sides agree. At the end of the string the lookahead fails, so nothing is
  inserted there.
\<close>

fun ins_commas :: "bool \<Rightarrow> jstring \<Rightarrow> jstring" where
  "ins_commas w [] = []"
| "ins_commas w (c # r) =
     (if w = is_word c \<and> lookahead3 (c # r) then [CHR '',''] else []) @ c # ins_commas (is_word c) r"

definition insert_commas :: "jstring \<Rightarrow> jstring" where
  "insert_commas s = ins_commas False s"

definition format_number :: "jsnum \<Rightarrow> jstring" where
  "format_number x = insert_commas (to_fixed2 x)"

section \<open>Reference grouping\<close>

text \<open>Thousands grouping as it is usually specified: groups of three from the right.\<close>

fun group3 :: "jstring \<Rightarrow> jstring" where
  "group3 ds =
     (if length ds \<le> 3 then ds else group3 (take (length ds - 3) ds) @ CHR '','' # drop (length ds - 3) ds)"

declare group3.simps [simp del, eval_simps]

text \<open>The same grouping read from the left: a comma before every digit that has a
  multiple of three digits after it, the first digit excepted.\<close>

fun grp_tail :: "jstring \<Rightarrow> jstring" where
  "grp_tail [] = []"
| "grp_tail (d # t) = (if Suc (length t) mod 3 = 0 then [CHR '',''] else []) @ d # grp_tail t"

section \<open>Lemmas: the separator\<close>

lemma filter_ins_commas [simp]:
  "filter (\<lambda>c. c \<noteq> CHR '','') (ins_commas w s) = filter (\<lambda>c. c \<noteq> CHR '','') s"
  by (induction s arbitrary: w) auto

lemma lookahead3_head: "lookahead3 s \<Longrightarrow> s \<noteq> [] \<and> is_digit (hd s)"
  by (cases s rule: lookahead3.cases) auto

text \<open>Followed by a non-digit, a run of digits satisfies the lookahead exactly when
  its length is a positive multiple of three.\<close>

lemma lookahead3_digits:
  assumes "\<forall>c \<in> set t. is_digit c" and "rest = [] \<or> \<not> is_digit (hd rest)"
  shows "lookahead3 (t @ rest) = (t \<noteq> [] \<and> length t mod 3 = 0)"
  using assms
proof (induction t rule: lookahead3.induct)
  case (1 a b c r)
  then have IH: "lookahead3 (r @ rest) = (r \<noteq> [] \<and> length r mod 3 = 0)" by simp
  have m: "length (a # b # c # r) mod 3 = length r mod 3" by simp
  show ?case using "1.prems" IH m by (cases r) auto
qed (use lookahead3_head in \<open>auto simp: neq_Nil_conv elim: lookahead3.elims\<close>)

lemma ins_commas_digits:
  assumes "\<forall>c \<in> set t. is_digit c" and "rest = [] \<or> \<not> is_digit (hd rest)"
  shows "ins_commas True (t @ rest) = grp_tail t @ ins_commas True rest"
  using assms
proof (induction t)
  case Nil
  then show ?case by simp
next
  case (Cons d t)
  then have "lookahead3 ((d # t) @ rest) = (Suc (length t) mod 3 = 0)"
    using lookahead3_digits [of "d # t" rest] by simp
  with Cons show ?case by (simp add: digit_is_word)
qed

lemma grp_tail_short: "length t \<le> 2 \<Longrightarrow> grp_tail t = t"
  by (induction t) auto

lemma grp_tail_append:
  "length ys mod 3 = 0 \<Longrightarrow> grp_tail (xs @ ys) = grp_tail xs @ grp_tail ys"
proof (induction xs)
  case Nil
  then show ?case by simp
next
  case (Cons d xs)
  then have "(Suc (length xs + length ys) mod 3 = 0) = (Suc (length xs) mod 3 = 0)"
    by presburger
  with Cons show ?case by simp
qed

lemma grp_tail_three:
  assumes "length t = 3"
  shows "grp_tail t = CHR '','' # t"
proof -
  from assms obtain a b c where "t = [a, b, c]"
    by (auto simp: numeral_3_eq_3 length_Suc_conv)
  then show ?thesis by simp
qed

lemma group3_grp_tail: "ds \<noteq> [] \<Longrightarrow> group3 ds = hd ds # grp_tail (tl ds)"
proof (induction ds rule: group3.induct)
  case (1 ds)
  show ?case
  proof (cases "length ds \<le> 3")
    case True
    then show ?thesis using "1.prems" by (subst group3.simps) (cases ds, auto simp: grp_tail_short)
  next
    case False
    let ?k = "length ds - 3"
    have split: "ds = take ?k ds @ drop ?k ds" by simp
    have ne: "take ?k ds \<noteq> []" using False by (cases ds) auto
    have IH: "group3 (take ?k ds) = hd (take ?k ds) # grp_tail (tl (take ?k ds))"
      using "1.IH" False ne by simp
    have tl: "tl ds = tl (take ?k ds) @ drop ?k ds" using ne by (metis split tl_append2)
    have "grp_tail (tl ds) = grp_tail (tl (take ?k ds)) @ CHR '','' # drop ?k ds"
      using False by (simp add: tl grp_tail_append grp_tail_three)
    moreover have "hd ds = hd (take ?k ds)" using ne by (metis split hd_append2)
    ultimately show ?thesis using False IH by (subst group3.simps) simp
  qed
qed

section \<open>Lemmas: toFixed\<close>

lemma digit_char_0 [simp]: "digit_char 0 = CHR ''0''"
  by (simp add: digit_char_def)

text \<open>The integer part and the two decimals that toFixed(2) prints for \<open>n\<close> hundredths.\<close>

lemma fixed_digits_split:
  "fixed_digits n = nat_str (n div 100) @ CHR ''.'' # [digit_char (n div 10 mod 10), digit_char (n mod 10)]"
proof (cases "n < 10")
  case True
  then show ?thesis by (simp add: fixed_digits_def nat_str_small)
next
  case False
  show ?thesis
  proof (cases "n < 100")
    case True
    with False have "nat_str n = [digit_char (n div 10), digit_char (n mod 10)]"
      by (simp add: nat_str_step nat_str_small)
    with True False show ?thesis by (simp add: fixed_digits_def nat_str_small)
  next
    case big: False
    have "nat_str n = nat_str (n div 100) @ [digit_char (n div 10 mod 10), digit_char (n mod 10)]"
      using big by (simp add: nat_str_step [of n] nat_str_step [of "n div 10"] div_mult2_eq [symmetric])
    then show ?thesis using big by (simp add: fixed_digits_def Let_def)
  qed
qed

lemma digits_val_fixed:
  "digits_val (nat_str (n div 100) @ [digit_char (n div 10 mod 10), digit_char (n mod 10)]) = n"
proof -
  have a: "n div 10 div 10 = n div 100" by (simp add: div_mult2_eq [symmetric])
  have b: "n div 10 = n div 100 * 10 + n div 10 mod 10"
    using div_mult_mod_eq [of "n div 10" 10] a by simp
  have "n div 100 * 100 + (n div 10 mod 10) * 10 + n mod 10 = n"
    using b div_mult_mod_eq [of n 10] by linarith
  moreover have "digits_val [digit_char (n div 10 mod 10), digit_char (n mod 10)] =
      (n div 10 mod 10) * 10 + n mod 10"
    by (simp add: digits_val_def)
  ultimately show ?thesis by simp
qed

section \<open>formatNumber on finite values\<close>

lemma to_fixed2_small:
  "\<bar>x\<bar> < 10 ^ 21 \<Longrightarrow> to_fixed2 (Fin x) = (if x < 0 then ''-'' else []) @ fixed_digits (cents x)"
  by (cases "x < 0") auto

lemma lookahead3_minus [simp]: "\<not> lookahead3 (CHR ''-'' # s)"
  using lookahead3_head [of "CHR ''-'' # s"] by (auto simp: is_digit_def)

lemma is_word_punct [simp]: "\<not> is_word (CHR ''.'')" "\<not> is_word (CHR ''-'')"
  by (simp_all add: is_word_def is_digit_def)

lemma ins_commas_fraction:
  "ins_commas True (CHR ''.'' # frac_digits n) = CHR ''.'' # frac_digits n"
  by (simp add: digit_is_word)

lemma ins_commas_fixed:
  "ins_commas False (fixed_digits n) = group3 (nat_str (n div 100)) @ CHR ''.'' # frac_digits n"
proof -
  obtain d t where dt: "nat_str (n div 100) = d # t"
    using nat_str_nonempty by (metis neq_Nil_conv)
  have digits: "is_digit d" "\<forall>c \<in> set t. is_digit c"
    using nat_str_digits [of "n div 100"] dt by auto
  have "ins_commas True (t @ CHR ''.'' # frac_digits n) = grp_tail t @ CHR ''.'' # frac_digits n"
    using digits ins_commas_digits [of t "CHR ''.'' # frac_digits n"] ins_commas_fraction
    by (simp add: is_digit_def)
  then show ?thesis
    using digits dt group3_grp_tail [of "d # t"] by (simp add: fixed_digits_split digit_is_word)
qed

lemma fixed_digits_chars: "set (fixed_digits n) \<subseteq> insert (CHR ''.'') {c. is_digit c}"
  using nat_str_digits [of "n div 100"] by (auto simp: fixed_digits_split)

lemma to_fixed2_no_comma:
  "\<bar>x\<bar> < 10 ^ 21 \<Longrightarrow> CHR '','' \<notin> set (to_fixed2 (Fin x))"
  using fixed_digits_chars [of "cents x"] by (auto simp: to_fixed2_small is_digit_def)

lemma parse_fixed_digits:
  "parse_unsigned (fixed_digits n) = Fin (of_nat n / 100)"
proof -
  have "parse_unsigned (nat_str (n div 100) @ CHR ''.'' # frac_digits n @ []) =
          Fin (of_nat (digits_val (nat_str (n div 100) @ frac_digits n)) / 10 ^ length (frac_digits n))"
    by (rule parse_unsigned_fixed) auto
  then show ?thesis by (simp add: fixed_digits_split digits_val_fixed del: digits_val_append)
qed

lemma fixed_digits_lead:
  "\<exists>d r. fixed_digits n = d # r \<and> is_digit d"
proof -
  obtain d t where "nat_str (n div 100) = d # t"
    using nat_str_nonempty by (metis neq_Nil_conv)
  moreover have "is_digit d" using nat_str_digits [of "n div 100"] calculation by auto
  ultimately show ?thesis by (simp add: fixed_digits_split)
qed

lemma digit_not_sign [simp]: "is_digit c \<Longrightarrow> c \<noteq> CHR ''-'' \<and> c \<noteq> CHR ''+''"
  by (auto simp: is_digit_def)

lemma parse_float_fixed_digits:
  "parse_float (fixed_digits n) = Fin (of_nat n / 100)"
  using fixed_digits_lead [of n] parse_fixed_digits [of n]
  by (auto simp: parse_float_def)

lemma parse_float_neg_fixed_digits:
  "parse_float (CHR ''-'' # fixed_digits n) = Fin (- (of_nat n / 100))"
  using parse_fixed_digits [of n] by (simp add: parse_float_def js_space_def)

lemma of_nat_cents: "of_nat (cents x) = (of_int \<lfloor>\<bar>x\<bar> * 100 + 1 / 2\<rfloor> :: rat)"
proof -
  have "0 \<le> \<lfloor>\<bar>x\<bar> * 100 + 1 / 2\<rfloor>" by simp
  then show ?thesis by simp
qed

lemma strip_format_number:
  assumes "\<bar>x\<bar> < 10 ^ 21"
  shows "filter (\<lambda>c. c \<noteq> CHR '','') (format_number (Fin x)) = to_fixed2 (Fin x)"
proof -
  have "\<forall>c \<in> set (to_fixed2 (Fin x)). c \<noteq> CHR '',''"
    using to_fixed2_no_comma [OF assms] by blast
  then show ?thesis
    unfolding format_number_def insert_commas_def filter_ins_commas by (simp only: filter_id_conv)
qed

lemma format_number_fin:
  assumes "\<bar>x\<bar> < 10 ^ 21"
  shows "format_number (Fin x) =
           (if x < 0 then ''-'' else []) @ group3 (nat_str (cents x div 100)) @ CHR ''.'' # frac_digits (cents x)"
  unfolding format_number_def insert_commas_def to_fixed2_small [OF assms]
  by (simp add: ins_commas_fixed del: to_fixed2.simps)

lemma parse_format_number:
  assumes "\<bar>x\<bar> < 10 ^ 21"
  shows "parse_float (filter (\<lambda>c. c \<noteq> CHR '','') (format_number (Fin x))) = Fin (round2 x)"
proof (cases "x < 0")
  case True
  then show ?thesis using assms
    by (simp add: strip_format_number to_fixed2_small parse_float_neg_fixed_digits of_nat_cents round2_def
        del: to_fixed2.simps)
next
  case False
  then show ?thesis using assms
    by (simp add: strip_format_number to_fixed2_small parse_float_fixed_digits of_nat_cents round2_def
        del: to_fixed2.simps)
qed

section \<open>Properties of formatNumber\<close>

text \<open>
  C19. For a finite value below \<open>10^21\<close> in magnitude, \<open>formatNumber\<close> prints the
  sign, the integer part of the value rounded to cents grouped in threes from the right
  (the reference grouping \<open>group3\<close>), a point and the two cent digits: the
  regular-expression scan of line 12 is equivalent to the conventional grouping.
\<close>

theorem format_number_grouped:
  assumes "\<bar>x\<bar> < 10 ^ 21"
  shows "format_number (Fin x) =
           (if x < 0 then ''-'' else []) @ group3 (nat_str (cents x div 100)) @ CHR ''.'' # frac_digits (cents x)"
  using assms by (rule format_number_fin)

theorem format_number_grouped_witness:
  "\<bar>- 1234567891 / 1000 :: rat\<bar> < 10 ^ 21 \<and>
   format_number (Fin (- 1234567891 / 1000)) = ''-1,234,567.89''"
proof -
  have h: "\<bar>- 1234567891 / 1000 :: rat\<bar> < 10 ^ 21" by simp
  show ?thesis using format_number_grouped [OF h] h by (simp add: eval_simps)
qed

text \<open>
  C7. Round trip of a displayed amount: removing the thousands separators from the
  output of \<open>formatNumber\<close> and reading it back with \<open>parseFloat\<close> gives the value
  rounded to cents (half away from zero), for every finite value below \<open>10^21\<close> in
  magnitude.
\<close>

theorem format_parse_roundtrip:
  assumes "\<bar>x\<bar> < 10 ^ 21"
  shows "parse_float (filter (\<lambda>c. c \<noteq> CHR '','') (format_number (Fin x))) = Fin (round2 x)"
  using assms by (rule parse_format_number)

theorem format_parse_roundtrip_witness:
  "\<bar>1005 / 1000 :: rat\<bar> < 10 ^ 21 \<and>
   parse_float (filter (\<lambda>c. c \<noteq> CHR '','') (format_number (Fin (1005 / 1000)))) = Fin (101 / 100)"
proof -
  have h: "\<bar>1005 / 1000 :: rat\<bar> < 10 ^ 21" by simp
  have r: "round2 (1005 / 1000) = 101 / 100" by (simp add: round2_def eval_simps)
  show ?thesis using format_parse_roundtrip [OF h] h r by simp
qed

end
