(* ===== verification/Ledger.thy ===== *)
theory Ledger
  imports Number_Format
begin

text \<open>
  The line-item table and the totals of \<open>src/script.js\<close>. A row of the preview table
  \<open>#itemsPreviewTable\<close> is created by the add-item handler (lines 88-100) with five
  cells: product, grade, the unit price as the naira sign followed by \<open>formatNumber(unitPrice)\<close>, the
  quantity, and the amount as the naira sign followed by \<open>formatNumber(unitPrice * quantity)\<close>.
  \<open>updateTotals\<close> (lines 16-61) never reads the numbers it stored: it re-reads the
  text of the fifth cell of every row, strips the naira sign, the commas and white
  space, and parses it again (lines 18-26). The quantity cell is only displayed; its
  text (\<open>Number::toString\<close>) is not modelled and the row keeps the number itself.
  Product and grade are interpolated into \<open>innerHTML\<close> unescaped; the model keeps
  them as text, so markup in them is not modelled.
\<close>

record item_row =
  product :: jstring
  grade :: jstring
  price_cell :: jstring
  quantity :: jsnum
  amount_cell :: jstring

text \<open>A row of the exported invoice table: a copy of an item row or a blank placeholder.\<close>

datatype inv_row = Item item_row | Blank

text \<open>The row the add-item handler appends (lines 88-99).\<close>

definition make_row :: "jstring \<Rightarrow> jstring \<Rightarrow> jsnum \<Rightarrow> jsnum \<Rightarrow> item_row" where
  "make_row p g unit_price qty =
     (let amount = js_mul unit_price qty
      in \<lparr>product = p, grade = g, price_cell = naira # format_number unit_price,
          quantity = qty, amount_cell = naira # format_number amount\<rparr>)"

text \<open>\<open>amountText.replace(/[N,\s]/g, '')\<close> of line 22, where \<open>N\<close> is the naira sign.\<close>

definition clean_amount :: "jstring \<Rightarrow> jstring" where
  "clean_amount s = filter (\<lambda>c. \<not> (c = naira \<or> c = CHR '','' \<or> js_space c)) s"

text \<open>The amount read back from a row (lines 20-23).\<close>

definition amount_of_row :: "item_row \<Rightarrow> jsnum" where
  "amount_of_row r = or_zero (parse_float (clean_amount (js_trim (amount_cell r))))"

text \<open>
  The subtotal, tax and total of lines 17-29: the amounts are summed in table order
  starting from 0, the tax is \<open>parseFloat(taxInput) || 0\<close>.
\<close>

definition compute_totals :: "item_row list \<Rightarrow> jstring \<Rightarrow> jsnum \<times> jsnum \<times> jsnum" where
  "compute_totals rows tax_input =
     (let subtotal = foldl (\<lambda>acc r. js_add acc (amount_of_row r)) (Fin 0) rows;
          tax = or_zero (parse_float tax_input)
      in (subtotal, tax, js_add subtotal tax))"

text \<open>The texts written to \<open>#subtotal\<close>, \<open>#tax\<close> and \<open>#total\<close> (lines 31-33).\<close>

definition totals_texts :: "item_row list \<Rightarrow> jstring \<Rightarrow> jstring \<times> jstring \<times> jstring" where
  "totals_texts rows tax_input =
     (case compute_totals rows tax_input of (s, t, tot) \<Rightarrow> (format_number s, format_number t, format_number tot))"

text \<open>
  The body of \<open>#invoiceTable\<close> after lines 37-59: a copy of every item row, then
  \<open>5 - currentRows\<close> blank rows (none when that difference is not positive).
\<close>

definition invoice_rows_of :: "item_row list \<Rightarrow> inv_row list" where
  "invoice_rows_of rows = map Item rows @ replicate (nat (5 - int (length rows))) Blank"

section \<open>Lemmas\<close>

lemma js_add_zero_right [simp]: "js_add x (Fin 0) = x"
  by (cases x) auto

lemma make_row_fields [simp]:
  "product (make_row p g u q) = p" "grade (make_row p g u q) = g" "quantity (make_row p g u q) = q"
  by (simp_all add: make_row_def Let_def)

lemma js_trim_id:
  assumes "s \<noteq> []" and "\<not> js_space (hd s)" and "\<not> js_space (last s)"
  shows "js_trim s = s"
proof -
  have "dropWhile js_space s = s" using assms by (cases s) auto
  moreover have "dropWhile js_space (rev s) = rev s"
    using assms by (cases "rev s") (auto simp: last_rev [symmetric])
  ultimately show ?thesis by (simp add: js_trim_def)
qed

lemma group3_chars: "set (group3 ds) \<subseteq> insert (CHR '','') (set ds)"
proof (induction ds rule: group3.induct)
  case (1 ds)
  then show ?case
    by (subst group3.simps) (auto dest: in_set_takeD in_set_dropD)
qed

lemma format_number_chars:
  assumes "\<bar>x\<bar> < 10 ^ 21"
  shows "set (format_number (Fin x)) \<subseteq> {c. is_digit c} \<union> {CHR ''-'', CHR ''.'', CHR '',''}"
  using group3_chars [of "nat_str (cents x div 100)"] nat_str_digits [of "cents x div 100"]
  by (auto simp: format_number_fin [OF assms] split: if_splits)

lemma format_number_last:
  assumes "\<bar>x\<bar> < 10 ^ 21"
  shows "format_number (Fin x) \<noteq> [] \<and> is_digit (last (format_number (Fin x)))"
  by (simp add: format_number_fin [OF assms])

text \<open>
  The amount cell of a row holding a finite amount below \<open>10^21\<close> reads back as the
  amount rounded to cents.
\<close>

lemma amount_of_row_formatted:
  assumes "amount_cell r = naira # format_number (Fin x)" and "\<bar>x\<bar> < 10 ^ 21"
  shows "amount_of_row r = Fin (round2 x)"
proof -
  let ?s = "format_number (Fin x)"
  have chars: "\<forall>c \<in> set ?s. \<not> js_space c \<and> c \<noteq> naira"
    using format_number_chars [OF assms(2)]
    by (auto simp: naira_def js_space_def is_digit_def)
  have lst: "?s \<noteq> []" "is_digit (last ?s)" using format_number_last [OF assms(2)] by auto
  have trim: "js_trim (naira # ?s) = naira # ?s"
    using lst by (intro js_trim_id) auto
  have "clean_amount (naira # ?s) = filter (\<lambda>c. c \<noteq> CHR '','') ?s"
    using chars by (auto simp: clean_amount_def intro: filter_cong)
  then show ?thesis
    using assms trim parse_format_number [OF assms(2)]
    by (simp add: amount_of_row_def)
qed

lemma subtotal_fold_formatted:
  assumes "list_all2 (\<lambda>r x. amount_cell r = naira # format_number (Fin x) \<and> \<bar>x\<bar> < 10 ^ 21) rows xs"
  shows "foldl (\<lambda>acc r. js_add acc (amount_of_row r)) (Fin a) rows = Fin (a + sum_list (map round2 xs))"
  using assms
proof (induction rows xs arbitrary: a rule: list_all2_induct)
  case Nil
  then show ?case by simp
next
  case (Cons r rows x xs)
  then have "amount_of_row r = Fin (round2 x)" by (intro amount_of_row_formatted) auto
  with Cons show ?case by (simp add: add.assoc)
qed

lemma subtotal_formatted:
  assumes "list_all2 (\<lambda>r x. amount_cell r = naira # format_number (Fin x) \<and> \<bar>x\<bar> < 10 ^ 21) rows xs"
  shows "fst (compute_totals rows t) = Fin (sum_list (map round2 xs))"
  using subtotal_fold_formatted [OF assms, of 0] by (simp add: compute_totals_def Let_def)

lemma totals_texts_fst: "fst (totals_texts rows t) = format_number (fst (compute_totals rows t))"
  by (cases "compute_totals rows t") (simp add: totals_texts_def)

lemma make_row_amount:
  assumes "\<bar>a * b\<bar> < 10 ^ 21"
  shows "amount_cell (make_row p g (Fin a) (Fin b)) = naira # format_number (Fin (a * b))"
  by (simp add: make_row_def)

lemma parse_float_25: "parse_float ''25'' = Fin 25"
  by (simp add: parse_float_def parse_unsigned_def is_digit_def js_space_def exponent_part_def
      decimal_value_def digits_val_def digit_val_def)

lemma parse_float_abc: "parse_float ''abc'' = NaN"
  by (simp add: parse_float_def parse_unsigned_def is_digit_def js_space_def)

text \<open>A negative tax is accepted and lowers the total (the spec leaves this open).\<close>

text \<open>
  The regular expression of line 22 removes only the naira sign, commas and white
  space; a minus sign in an amount cell is kept and read back, although the comments
  on lines 19 and 21 say that everything except digits and the point is removed.
\<close>

lemma clean_amount_keeps_minus:
  "amount_of_row \<lparr>product = ''x'', grade = ''y'', price_cell = [], quantity = Fin 1,
                   amount_cell = naira # ''-5.00''\<rparr> = Fin (- 5)"
  by (simp add: amount_of_row_def clean_amount_def js_trim_def js_space_def naira_def parse_float_def
      parse_unsigned_def is_digit_def exponent_part_def decimal_value_def digits_val_def digit_val_def or_zero_def)

lemma negative_tax_accepted: "compute_totals [] ''-50'' = (Fin 0, Fin (- 50), Fin (- 50))"
  by (simp add: compute_totals_def Let_def parse_float_def parse_unsigned_def is_digit_def js_space_def
      exponent_part_def decimal_value_def digits_val_def digit_val_def)

section \<open>Properties of the totals\<close>

text \<open>
  C9. The subtotal shown is the sum of the amounts as they are displayed, each
  rounded to cents, not the sum of the exact products: \<open>updateTotals\<close> re-parses
  the formatted amount cells. Stated for a table of at most five rows (\<open>maxItems\<close>)
  whose amount cells show non-negative amounts below \<open>10^12\<close>, and any tax input.
  In that range the sum of the displayed amounts is a whole number of cents below
  \<open>5 * 10^12\<close>, and the rounding of doubles in \<open>parseFloat\<close> and \<open>+=\<close> (relative
  error below \<open>2^-52\<close> per operation) stays far below the half cent that
  \<open>toFixed(2)\<close> would need to print another text, so the exact model prints what the
  browser prints.
\<close>

theorem subtotal_is_sum_of_rounded_amounts:
  assumes "length rows \<le> 5"
    and "list_all2 (\<lambda>r x. amount_cell r = naira # format_number (Fin x) \<and> 0 \<le> x \<and> x < 10 ^ 12) rows xs"
  shows "fst (totals_texts rows t) = format_number (Fin (sum_list (map round2 xs)))"
proof -
  have "list_all2 (\<lambda>r x. amount_cell r = naira # format_number (Fin x) \<and> \<bar>x\<bar> < 10 ^ 21) rows xs"
    using assms(2) by (rule list_all2_mono) auto
  then have "fst (compute_totals rows t) = Fin (sum_list (map round2 xs))" by (rule subtotal_formatted)
  then show ?thesis by (simp add: totals_texts_fst)
qed

theorem subtotal_is_sum_of_rounded_amounts_witness:
  "length [make_row ''Maize'' ''A'' (Fin (1 / 3)) (Fin 1), make_row ''Rice'' ''B'' (Fin (1 / 3)) (Fin 1)] \<le> 5 \<and>
   list_all2 (\<lambda>r x. amount_cell r = naira # format_number (Fin x) \<and> 0 \<le> x \<and> x < 10 ^ 12)
     [make_row ''Maize'' ''A'' (Fin (1 / 3)) (Fin 1), make_row ''Rice'' ''B'' (Fin (1 / 3)) (Fin 1)]
     [1 / 3, 1 / 3] \<and>
   fst (totals_texts [make_row ''Maize'' ''A'' (Fin (1 / 3)) (Fin 1),
                      make_row ''Rice'' ''B'' (Fin (1 / 3)) (Fin 1)] ''0'') = ''0.66''"
proof -
  have l: "length [make_row ''Maize'' ''A'' (Fin (1 / 3)) (Fin 1), make_row ''Rice'' ''B'' (Fin (1 / 3)) (Fin 1)] \<le> 5"
    by simp
  have h: "list_all2 (\<lambda>r x. amount_cell r = naira # format_number (Fin x) \<and> 0 \<le> x \<and> x < 10 ^ 12)
     [make_row ''Maize'' ''A'' (Fin (1 / 3)) (Fin 1), make_row ''Rice'' ''B'' (Fin (1 / 3)) (Fin 1)]
     [1 / 3, 1 / 3]"
    by (simp add: make_row_def)
  have r: "round2 (1 / 3) = 33 / 100" by (simp add: round2_def eval_simps)
  have f: "format_number (Fin (66 / 100)) = ''0.66''"
    using format_number_fin [of "66 / 100"] by (simp add: eval_simps)
  show ?thesis using subtotal_is_sum_of_rounded_amounts [OF l h] l h r f by simp
qed

text \<open>
  C6. The example of the specification: rows with amounts 100.00 and 250.50 and the
  tax input \<open>"25"\<close> display subtotal \<open>350.50\<close>, tax \<open>25.00\<close> and total \<open>375.50\<close>.
\<close>

theorem totals_example:
  "totals_texts [make_row ''Maize'' ''A'' (Fin 50) (Fin 2), make_row ''Rice'' ''B'' (Fin (501 / 4)) (Fin 2)] ''25''
     = (''350.50'', ''25.00'', ''375.50'')"
proof -
  let ?rows = "[make_row ''Maize'' ''A'' (Fin 50) (Fin 2), make_row ''Rice'' ''B'' (Fin (501 / 4)) (Fin 2)]"
  have "list_all2 (\<lambda>r x. amount_cell r = naira # format_number (Fin x) \<and> \<bar>x\<bar> < 10 ^ 21) ?rows [100, 501 / 2]"
    by (simp add: make_row_def)
  then have "fst (compute_totals ?rows ''25'') = Fin (sum_list (map round2 [100, 501 / 2]))"
    by (rule subtotal_formatted)
  moreover have "round2 100 = 100" and "round2 (501 / 2) = 501 / 2"
    by (simp_all add: round2_def eval_simps)
  ultimately have sub: "fst (compute_totals ?rows ''25'') = Fin (701 / 2)" by simp
  have ct: "compute_totals ?rows ''25'' = (Fin (701 / 2), Fin 25, Fin (751 / 2))"
    using sub by (simp add: compute_totals_def Let_def parse_float_25)
  have f1: "format_number (Fin (701 / 2)) = ''350.50''"
    using format_number_fin [of "701 / 2"] by (simp add: eval_simps)
  have f2: "format_number (Fin 25) = ''25.00''"
    using format_number_fin [of 25] by (simp add: eval_simps)
  have f3: "format_number (Fin (751 / 2)) = ''375.50''"
    using format_number_fin [of "751 / 2"] by (simp add: eval_simps)
  show ?thesis by (simp add: totals_texts_def ct f1 f2 f3)
qed

text \<open>
  C8. A tax input that does not parse as a number counts as 0: the tax is 0 and the
  total equals the subtotal, whatever the rows.
\<close>

theorem malformed_tax_is_zero:
  assumes "parse_float t = NaN"
  shows "fst (snd (compute_totals rows t)) = Fin 0 \<and> snd (snd (compute_totals rows t)) = fst (compute_totals rows t)"
  using assms by (simp add: compute_totals_def Let_def)

theorem malformed_tax_is_zero_witness:
  "parse_float ''abc'' = NaN \<and>
   fst (snd (compute_totals [make_row ''Maize'' ''A'' (Fin 50) (Fin 2)] ''abc'')) = Fin 0 \<and>
   snd (snd (compute_totals [make_row ''Maize'' ''A'' (Fin 50) (Fin 2)] ''abc'')) =
     fst (compute_totals [make_row ''Maize'' ''A'' (Fin 50) (Fin 2)] ''abc'')"
  using malformed_tax_is_zero [OF parse_float_abc, of "[make_row ''Maize'' ''A'' (Fin 50) (Fin 2)]"] parse_float_abc
  by simp

text \<open>
  C15. With at most five item rows, the exported invoice table holds exactly five
  rows: copies of the item rows in table order, then blank placeholder rows.
\<close>

theorem invoice_table_padded:
  assumes "length rows \<le> 5"
  shows "length (invoice_rows_of rows) = 5 \<and> take (length rows) (invoice_rows_of rows) = map Item rows
         \<and> (\<forall>x \<in> set (drop (length rows) (invoice_rows_of rows)). x = Blank)"
  using assms by (simp add: invoice_rows_of_def)

theorem invoice_table_padded_witness:
  "length [make_row ''Maize'' ''A'' (Fin 50) (Fin 2)] \<le> 5 \<and>
   invoice_rows_of [make_row ''Maize'' ''A'' (Fin 50) (Fin 2)] =
     [Item (make_row ''Maize'' ''A'' (Fin 50) (Fin 2)), Blank, Blank, Blank, Blank]"
proof -
  have h: "length [make_row ''Maize'' ''A'' (Fin 50) (Fin 2)] \<le> 5" by simp
  from invoice_table_padded [OF h] have "length (invoice_rows_of [make_row ''Maize'' ''A'' (Fin 50) (Fin 2)]) = 5"
    by blast
  then show ?thesis using h by (simp add: invoice_rows_of_def numeral_eq_Suc)
qed

end
