(* ===== verification/Dates.thy ===== *)
theory Dates
  imports Prelude
begin

text \<open>
  Dates of the preview step (\<open>src/script.js\<close> lines 1-7 and 123-129). A JavaScript
  \<open>Date\<close> is seen through its getters \<open>getFullYear\<close>, \<open>getMonth\<close> (0-based) and
  \<open>getDate\<close>; the time of day is kept by \<open>setDate\<close> and not modelled, nor are
  time zones and daylight-saving shifts. \<open>setDate(dt)\<close> is specified by ECMA-262 as
  \<open>MakeDay(year, month, dt)\<close>: the day number \<open>dt - 1\<close> days after the first of
  the month, decomposed again by the getters. The model computes it by carrying
  surplus days into the following months (or borrowing from the preceding ones), and
  proves that this lands on the day number that \<open>MakeDay\<close> gives.
  \<open>DayFromYear\<close>, \<open>InLeapYear\<close> and the month table are ECMA-262's. Day
  numbers of valid dates are injective, so the normalised date is the one the getters
  read off the time value. \<open>formatDate\<close> is shown to print \<open>DD/MM/YYYY\<close> and to
  read back through \<open>read_date\<close>.
\<close>

record jsdate =
  year :: int
  month0 :: int
  mday :: int

section \<open>The calendar of ECMA-262\<close>

definition leap_year :: "int \<Rightarrow> bool" where
  "leap_year y \<longleftrightarrow> y mod 4 = 0 \<and> (y mod 100 \<noteq> 0 \<or> y mod 400 = 0)"

definition days_in_month :: "int \<Rightarrow> int \<Rightarrow> int" where
  "days_in_month y m =
     (if m = 1 then (if leap_year y then 29 else 28)
      else if m = 3 \<or> m = 5 \<or> m = 8 \<or> m = 10 then 30 else 31)"

text \<open>\<open>DayFromYear(y)\<close>: the day number of the first of January of \<open>y\<close>.\<close>

definition day_from_year :: "int \<Rightarrow> int" where
  "day_from_year y = 365 * (y - 1970) + (y - 1969) div 4 - (y - 1901) div 100 + (y - 1601) div 400"

text \<open>The days of year \<open>y\<close> before month \<open>m\<close> (the thresholds of \<open>MonthFromTime\<close>).\<close>

definition days_before_month :: "int \<Rightarrow> int \<Rightarrow> int" where
  "days_before_month y m =
     (let l = (if leap_year y then 1 else 0)
      in if m = 0 then 0 else if m = 1 then 31 else if m = 2 then 59 + l else if m = 3 then 90 + l
         else if m = 4 then 120 + l else if m = 5 then 151 + l else if m = 6 then 181 + l
         else if m = 7 then 212 + l else if m = 8 then 243 + l else if m = 9 then 273 + l
         else if m = 10 then 304 + l else 334 + l)"

definition day_number :: "jsdate \<Rightarrow> int" where
  "day_number d = day_from_year (year d) + days_before_month (year d) (month0 d) + mday d - 1"

text \<open>\<open>MakeDay(y, m, dt)\<close>: the month may lie outside 0..11 and is carried into the year.\<close>

definition make_day :: "int \<Rightarrow> int \<Rightarrow> int \<Rightarrow> int" where
  "make_day y m dt =
     (let ym = y + m div 12; mn = m mod 12 in day_from_year ym + days_before_month ym mn + dt - 1)"

definition valid_date :: "jsdate \<Rightarrow> bool" where
  "valid_date d \<longleftrightarrow> 0 \<le> month0 d \<and> month0 d \<le> 11 \<and> 1 \<le> mday d \<and> mday d \<le> days_in_month (year d) (month0 d)"

section \<open>setDate\<close>

text \<open>
  The day \<open>dt\<close> of month \<open>m\<close> of year \<open>y\<close>, normalised: days beyond the end of the
  month move to the next month, days before the first move to the previous one.
\<close>

function norm_date :: "int \<Rightarrow> int \<Rightarrow> int \<Rightarrow> jsdate" where
  "norm_date y m dt =
     (if dt < 1 then
        (if m = 0 then norm_date (y - 1) 11 (dt + days_in_month (y - 1) 11)
         else norm_date y (m - 1) (dt + days_in_month y (m - 1)))
      else if days_in_month y m < dt then
        (if m = 11 then norm_date (y + 1) 0 (dt - days_in_month y m)
         else norm_date y (m + 1) (dt - days_in_month y m))
      else \<lparr>year = y, month0 = m, mday = dt\<rparr>)"
  by pat_completeness auto
termination
proof (relation "measures [\<lambda>(y, m, dt). nat (1 - dt), \<lambda>(y, m, dt). nat (dt - 28)]", goal_cases)
  case 1
  then show ?case by simp
next
  case (2 y m dt)
  then show ?case by (simp add: days_in_month_def)
next
  case (3 y m dt)
  then show ?case by (simp add: days_in_month_def)
next
  case (4 y m dt)
  then show ?case by (simp add: days_in_month_def split: if_splits)
next
  case (5 y m dt)
  then show ?case by (simp add: days_in_month_def split: if_splits)
qed

declare norm_date.simps [simp del, eval_simps]

text \<open>\<open>d.setDate(dt)\<close> (line 126).\<close>

definition set_date :: "jsdate \<Rightarrow> int \<Rightarrow> jsdate" where
  "set_date d dt = norm_date (year d) (month0 d) dt"

text \<open>The due date of line 125-126: \<open>dueDate.setDate(today.getDate() + 10)\<close>.\<close>

definition due_date_of :: "jsdate \<Rightarrow> jsdate" where
  "due_date_of today = set_date today (mday today + 10)"

section \<open>formatDate\<close>

text \<open>\<open>String(n).padStart(2, '0')\<close>.\<close>

definition pad2 :: "jstring \<Rightarrow> jstring" where
  "pad2 s = (if length s < 2 then replicate (2 - length s) (CHR ''0'') @ s else s)"

text \<open>\<open>formatDate\<close> (lines 2-7): \<open>DD/MM/YYYY\<close>, the year not padded.\<close>

definition format_date :: "jsdate \<Rightarrow> jstring" where
  "format_date d =
     pad2 (int_str (mday d)) @ CHR ''/'' # pad2 (int_str (month0 d + 1)) @ CHR ''/'' # int_str (year d)"

text \<open>
  Reading a \<open>DD/MM/YYYY\<close> text back into a date: the digits before the first
  slash, between the two slashes, and after the second. This is not part of the
  script; it states what a reader of the invoice recovers from the printed dates.
\<close>

definition read_date :: "jstring \<Rightarrow> jsdate" where
  "read_date s =
     \<lparr>year = int (digits_val (drop 6 s)), month0 = int (digits_val (take 2 (drop 3 s))) - 1,
      mday = int (digits_val (take 2 s))\<rparr>"

section \<open>Calendar lemmas\<close>

lemma div_step:
  assumes k: "0 < (k::int)"
  shows "(a + 1) div k = a div k + (if (a + 1) mod k = 0 then 1 else 0)"
proof -
  have r: "0 \<le> a mod k" "a mod k < k" using k by simp_all
  have eq: "a + 1 = (a mod k + 1) + a div k * k" by simp
  show ?thesis
  proof (cases "a mod k + 1 = k")
    case True
    then have "a + 1 = (a div k + 1) * k" using eq by (simp add: algebra_simps)
    then show ?thesis using k by simp
  next
    case False
    with r have lt: "0 \<le> a mod k + 1" "a mod k + 1 < k" by simp_all
    have "(a + 1) div k = (a mod k + 1 + a div k * k) div k" using eq by (rule arg_cong)
    also have "\<dots> = a div k + (a mod k + 1) div k" using k by (intro div_mult_self1) simp
    also have "\<dots> = a div k" using lt by (simp add: div_pos_pos_trivial)
    finally have d: "(a + 1) div k = a div k" .
    have "(a + 1) mod k = (a mod k + 1 + a div k * k) mod k" using eq by (rule arg_cong)
    also have "\<dots> = (a mod k + 1) mod k" by (rule mod_mult_self1)
    also have "\<dots> = a mod k + 1" using lt by (simp add: mod_pos_pos_trivial)
    finally have "(a + 1) mod k = a mod k + 1" .
    with d r show ?thesis by simp
  qed
qed

lemma mod_shift: "0 < (k::int) \<Longrightarrow> (y - c * k) mod k = y mod k"
  by (metis add_uminus_conv_diff mod_mult_self1 mult_minus_left)

lemma year_length: "days_before_month y 11 + days_in_month y 11 = (if leap_year y then 366 else 365)"
  by (simp add: days_before_month_def days_in_month_def)

lemma day_from_year_succ:
  "day_from_year (y + 1) = day_from_year y + days_before_month y 11 + days_in_month y 11"
proof -
  have a: "(y + 1 - 1969) div 4 = (y - 1969) div 4 + (if y mod 4 = 0 then 1 else 0)"
    using div_step [of 4 "y - 1969"] mod_shift [of 4 y 492] by (simp add: algebra_simps)
  have b: "(y + 1 - 1901) div 100 = (y - 1901) div 100 + (if y mod 100 = 0 then 1 else 0)"
    using div_step [of 100 "y - 1901"] mod_shift [of 100 y 19] by (simp add: algebra_simps)
  have c: "(y + 1 - 1601) div 400 = (y - 1601) div 400 + (if y mod 400 = 0 then 1 else 0)"
    using div_step [of 400 "y - 1601"] mod_shift [of 400 y 4] by (simp add: algebra_simps)
  have d: "y mod 400 = 0 \<Longrightarrow> y mod 100 = 0" using mod_mod_cancel [of 100 400 y] by simp
  have e: "y mod 100 = 0 \<Longrightarrow> y mod 4 = 0" using mod_mod_cancel [of 4 100 y] by simp
  note f = year_length [of y]
  have g: "day_from_year (y + 1) = day_from_year y + 365 + (if y mod 4 = 0 then 1 else 0)
      - (if y mod 100 = 0 then 1 else 0) + (if y mod 400 = 0 then 1 else 0)"
    by (simp only: day_from_year_def a b c) simp
  show ?thesis
    using d e f g by (cases "y mod 4 = 0"; cases "y mod 100 = 0"; cases "y mod 400 = 0") (simp_all add: leap_year_def)
qed
lemma month_cases: "0 \<le> m \<Longrightarrow> m \<le> (11::int) \<Longrightarrow>
  m = 0 \<or> m = 1 \<or> m = 2 \<or> m = 3 \<or> m = 4 \<or> m = 5 \<or> m = 6 \<or> m = 7 \<or> m = 8 \<or> m = 9 \<or> m = 10 \<or> m = 11"
  by arith

lemma days_before_month_succ:
  "0 \<le> m \<Longrightarrow> m \<le> 10 \<Longrightarrow> days_before_month y (m + 1) = days_before_month y m + days_in_month y m"
  by (drule month_cases) (auto simp: days_before_month_def days_in_month_def)

lemma days_before_month_0 [simp]: "days_before_month y 0 = 0"
  by (simp add: days_before_month_def)

lemma norm_date_day_number:
  "0 \<le> m \<Longrightarrow> m \<le> 11 \<Longrightarrow>
   day_number (norm_date y m dt) = day_from_year y + days_before_month y m + dt - 1"
proof (induction y m dt rule: norm_date.induct)
  case (1 y m dt)
  show ?case
  proof (cases "dt < 1")
    case low: True
    show ?thesis
    proof (cases "m = 0")
      case True
      with low have "norm_date y m dt = norm_date (y - 1) 11 (dt + days_in_month (y - 1) 11)"
        by (subst norm_date.simps) simp
      with low True "1.IH"(1) show ?thesis using day_from_year_succ [of "y - 1"] by simp
    next
      case False
      with low have "norm_date y m dt = norm_date y (m - 1) (dt + days_in_month y (m - 1))"
        by (subst norm_date.simps) simp
      with low False "1.IH"(2) "1.prems" show ?thesis using days_before_month_succ [of "m - 1" y] by simp
    qed
  next
    case notlow: False
    show ?thesis
    proof (cases "days_in_month y m < dt")
      case over: True
      show ?thesis
      proof (cases "m = 11")
        case True
        with notlow over have "norm_date y m dt = norm_date (y + 1) 0 (dt - days_in_month y m)"
          by (subst norm_date.simps) simp
        with notlow over True "1.IH"(3) show ?thesis using day_from_year_succ [of y] by simp
      next
        case False
        with notlow over have "norm_date y m dt = norm_date y (m + 1) (dt - days_in_month y m)"
          by (subst norm_date.simps) simp
        with notlow over False "1.IH"(4) "1.prems" show ?thesis using days_before_month_succ [of m y] by simp
      qed
    next
      case False
      with notlow show ?thesis by (subst norm_date.simps) (simp add: day_number_def)
    qed
  qed
qed

lemma norm_date_valid:
  "0 \<le> m \<Longrightarrow> m \<le> 11 \<Longrightarrow> valid_date (norm_date y m dt)"
proof (induction y m dt rule: norm_date.induct)
  case (1 y m dt)
  then show ?case
    by (subst norm_date.simps) (auto simp: valid_date_def)
qed
lemma make_day_in_range:
  "0 \<le> m \<Longrightarrow> m \<le> 11 \<Longrightarrow> make_day y m dt = day_from_year y + days_before_month y m + dt - 1"
  by (simp add: make_day_def)

lemma month_end_le_year:
  "0 \<le> m \<Longrightarrow> m \<le> 11 \<Longrightarrow> days_before_month y m + days_in_month y m \<le> days_before_month y 11 + days_in_month y 11"
  by (drule month_cases) (auto simp: days_before_month_def days_in_month_def)

lemma days_before_month_nonneg: "0 \<le> days_before_month y m"
  by (simp add: days_before_month_def Let_def)

lemma days_before_month_mono:
  assumes "0 \<le> m" and "m < m'" and "m' \<le> 11"
  shows "days_before_month y m + days_in_month y m \<le> days_before_month y m'"
proof -
  have "m \<le> 11" "0 \<le> m'" using assms by simp_all
  then show ?thesis
    using assms month_cases [OF assms(1) \<open>m \<le> 11\<close>] month_cases [OF \<open>0 \<le> m'\<close> assms(3)]
    by (auto simp: days_before_month_def days_in_month_def)
qed

lemma day_from_year_mono_step: "day_from_year y + 365 \<le> day_from_year (y + 1)"
  using day_from_year_succ [of y] year_length [of y] by simp

lemma day_from_year_less:
  assumes "y < y'" shows "day_from_year (y + 1) \<le> day_from_year y'"
proof -
  obtain k where k: "y' = y + 1 + int k" using assms by (metis zless_iff_Suc_zadd add.assoc of_nat_Suc add.commute)
  have "day_from_year (y + 1) \<le> day_from_year (y + 1 + int k)"
  proof (induction k)
    case 0 then show ?case by simp
  next
    case (Suc k)
    then show ?case using day_from_year_mono_step [of "y + 1 + int k"] by (simp add: algebra_simps)
  qed
  then show ?thesis using k by simp
qed


lemma day_number_bounds:
  assumes "valid_date d"
  shows "day_from_year (year d) \<le> day_number d \<and> day_number d < day_from_year (year d + 1)"
proof -
  have m: "0 \<le> month0 d" "month0 d \<le> 11" and dd: "1 \<le> mday d" "mday d \<le> days_in_month (year d) (month0 d)"
    using assms by (simp_all add: valid_date_def)
  show ?thesis
    using month_end_le_year [OF m, of "year d"] days_before_month_nonneg [of "year d" "month0 d"] dd
      day_from_year_succ [of "year d"] by (simp add: day_number_def)
qed

lemma day_number_same_year:
  assumes "valid_date a" and "valid_date b" and "day_number a = day_number b"
  shows "year a = year b"
proof (rule ccontr)
  assume "year a \<noteq> year b"
  then consider "year a < year b" | "year b < year a" by arith
  then show False
  proof cases
    case 1
    then show False using day_number_bounds [OF assms(1)] day_number_bounds [OF assms(2)]
      day_from_year_less [OF 1] assms(3) by simp
  next
    case 2
    then show False using day_number_bounds [OF assms(1)] day_number_bounds [OF assms(2)]
      day_from_year_less [OF 2] assms(3) by simp
  qed
qed

lemma day_number_inj:
  assumes "valid_date a" and "valid_date b" and "day_number a = day_number b"
  shows "a = b"
proof -
  have y: "year a = year b" by (rule day_number_same_year [OF assms])
  have va: "0 \<le> month0 a" "month0 a \<le> 11" "1 \<le> mday a" "mday a \<le> days_in_month (year a) (month0 a)"
    and vb: "0 \<le> month0 b" "month0 b \<le> 11" "1 \<le> mday b" "mday b \<le> days_in_month (year b) (month0 b)"
    using assms(1,2) by (simp_all add: valid_date_def)
  have e: "days_before_month (year a) (month0 a) + mday a = days_before_month (year a) (month0 a') + mday b"
    if "month0 a' = month0 b" for a' :: jsdate
    using assms(3) y that by (simp add: day_number_def)
  have m: "month0 a = month0 b"
  proof (rule ccontr)
    assume "month0 a \<noteq> month0 b"
    then consider "month0 a < month0 b" | "month0 b < month0 a" by arith
    then show False
    proof cases
      case 1
      then show False using days_before_month_mono [OF va(1) 1 vb(2), of "year a"] va vb e [of b] by simp
    next
      case 2
      then show False using days_before_month_mono [OF vb(1) 2 va(2), of "year a"] va vb e [of b] y by simp
    qed
  qed
  then have "mday a = mday b" using e [of b] by simp
  with y m show ?thesis by (simp add: jsdate.equality)
qed

lemma pad2_nat_str:
  assumes "n < 100"
  shows "length (pad2 (nat_str n)) = 2 \<and> digits_val (pad2 (nat_str n)) = n
         \<and> (\<forall>c \<in> set (pad2 (nat_str n)). is_digit c)"
  using nat_str_length_le2 [OF assms] nat_str_digits [of n]
  by (auto simp: pad2_def is_digit_def)

lemma format_date_parts:
  assumes "valid_date d" and "0 \<le> year d"
  shows "format_date d = pad2 (nat_str (nat (mday d))) @ CHR ''/'' # pad2 (nat_str (nat (month0 d + 1)))
                         @ CHR ''/'' # nat_str (nat (year d))"
    and "nat (mday d) < 100" and "nat (month0 d + 1) < 100"
proof -
  have v: "0 \<le> month0 d" "month0 d \<le> 11" "1 \<le> mday d" "mday d \<le> days_in_month (year d) (month0 d)"
    using assms(1) by (simp_all add: valid_date_def)
  moreover have "days_in_month (year d) (month0 d) \<le> 31" by (simp add: days_in_month_def)
  ultimately show "nat (mday d) < 100" "nat (month0 d + 1) < 100" by simp_all
  show "format_date d = pad2 (nat_str (nat (mday d))) @ CHR ''/'' # pad2 (nat_str (nat (month0 d + 1)))
                         @ CHR ''/'' # nat_str (nat (year d))"
    using v assms(2) by (simp add: format_date_def int_str_def)
qed

lemma slash_not_digit: "\<not> is_digit (CHR ''/'')"
  by (simp add: is_digit_def)

lemma map_digits_D:
  "\<forall>c \<in> set s. is_digit c \<Longrightarrow> map (\<lambda>c. if is_digit c then CHR ''D'' else c) s = replicate (length s) (CHR ''D'')"
  by (induction s) simp_all

section \<open>Properties of the due date\<close>

text \<open>
  C11. \<open>setDate\<close> refines ECMA-262: for a date whose month is in range, the date the
  model computes for \<open>d.setDate(dt)\<close> is a valid calendar date whose day number is
  \<open>MakeDay(year, month, dt)\<close>, for every integer \<open>dt\<close>, including days beyond the
  end of the month and days before its first.
\<close>

theorem set_date_refines_make_day:
  assumes "0 \<le> month0 d" and "month0 d \<le> 11"
  shows "day_number (set_date d dt) = make_day (year d) (month0 d) dt \<and> valid_date (set_date d dt)"
  using assms norm_date_day_number [OF assms] norm_date_valid [OF assms]
  by (simp add: set_date_def make_day_in_range)

theorem set_date_refines_make_day_witness:
  "0 \<le> month0 \<lparr>year = 2024, month0 = 11, mday = 25\<rparr> \<and> month0 \<lparr>year = 2024, month0 = 11, mday = 25\<rparr> \<le> 11 \<and>
   day_number (set_date \<lparr>year = 2024, month0 = 11, mday = 25\<rparr> (- 40)) = make_day 2024 11 (- 40) \<and>
   set_date \<lparr>year = 2024, month0 = 11, mday = 25\<rparr> (- 40) = \<lparr>year = 2024, month0 = 9, mday = 21\<rparr>"
proof -
  have h: "0 \<le> month0 \<lparr>year = 2024, month0 = 11, mday = 25\<rparr>" "month0 \<lparr>year = 2024, month0 = 11, mday = 25\<rparr> \<le> 11"
    by simp_all
  have e: "set_date \<lparr>year = 2024, month0 = 11, mday = 25\<rparr> (- 40) = \<lparr>year = 2024, month0 = 9, mday = 21\<rparr>"
    by (simp add: set_date_def eval_simps days_in_month_def leap_year_def)
  show ?thesis using set_date_refines_make_day [OF h, of "- 40"] h e by simp
qed

text \<open>
  C12. The due date shown in the preview (line 126) is a valid calendar date exactly
  ten days after the invoice date, month and year boundaries included.
\<close>

theorem due_date_ten_days:
  assumes "valid_date today"
  shows "valid_date (due_date_of today) \<and> day_number (due_date_of today) = day_number today + 10"
proof -
  have m: "0 \<le> month0 today" "month0 today \<le> 11" using assms by (simp_all add: valid_date_def)
  show ?thesis
    using norm_date_day_number [OF m] norm_date_valid [OF m]
    by (simp add: due_date_of_def set_date_def day_number_def)
qed

theorem due_date_ten_days_witness:
  "valid_date \<lparr>year = 2024, month0 = 11, mday = 25\<rparr> \<and>
   day_number (due_date_of \<lparr>year = 2024, month0 = 11, mday = 25\<rparr>) =
     day_number \<lparr>year = 2024, month0 = 11, mday = 25\<rparr> + 10 \<and>
   format_date \<lparr>year = 2024, month0 = 11, mday = 25\<rparr> = ''25/12/2024'' \<and>
   format_date (due_date_of \<lparr>year = 2024, month0 = 11, mday = 25\<rparr>) = ''04/01/2025''"
proof -
  have h: "valid_date \<lparr>year = 2024, month0 = 11, mday = 25\<rparr>"
    by (simp add: valid_date_def days_in_month_def)
  have d: "due_date_of \<lparr>year = 2024, month0 = 11, mday = 25\<rparr> = \<lparr>year = 2025, month0 = 0, mday = 4\<rparr>"
    by (simp add: due_date_of_def set_date_def eval_simps days_in_month_def leap_year_def)
  have f1: "format_date \<lparr>year = 2024, month0 = 11, mday = 25\<rparr> = ''25/12/2024''"
    by (simp add: format_date_def pad2_def int_str_def eval_simps)
  have f2: "format_date \<lparr>year = 2025, month0 = 0, mday = 4\<rparr> = ''04/01/2025''"
    by (simp add: format_date_def pad2_def int_str_def eval_simps)
  show ?thesis using due_date_ten_days [OF h] h d f1 f2 by simp
qed

text \<open>
  C20. The date computed for \<open>d.setDate(dt)\<close> is the one that the getters of
  ECMA-262 read off the time value \<open>MakeDay(year, month, dt)\<close>: among the valid
  calendar dates it is exactly the one whose day number is \<open>MakeDay\<close>'s, so the
  normalisation by carrying days agrees with the decomposition of day numbers.
\<close>

theorem set_date_iff_make_day:
  assumes "0 \<le> month0 d" and "month0 d \<le> 11" and "valid_date d'"
  shows "set_date d dt = d' \<longleftrightarrow> day_number d' = make_day (year d) (month0 d) dt"
proof -
  have n: "day_number (set_date d dt) = make_day (year d) (month0 d) dt"
    using norm_date_day_number [OF assms(1,2)] by (simp add: set_date_def make_day_in_range [OF assms(1,2)])
  have v: "valid_date (set_date d dt)"
    using norm_date_valid [OF assms(1,2)] by (simp add: set_date_def)
  show ?thesis using n v assms(3) day_number_inj by metis
qed

theorem set_date_iff_make_day_witness:
  "0 \<le> month0 \<lparr>year = 2024, month0 = 11, mday = 25\<rparr> \<and> month0 \<lparr>year = 2024, month0 = 11, mday = 25\<rparr> \<le> 11 \<and>
   valid_date \<lparr>year = 2024, month0 = 9, mday = 21\<rparr> \<and>
   day_number \<lparr>year = 2024, month0 = 9, mday = 21\<rparr> = make_day 2024 11 (- 40) \<and>
   set_date \<lparr>year = 2024, month0 = 11, mday = 25\<rparr> (- 40) = \<lparr>year = 2024, month0 = 9, mday = 21\<rparr>"
proof -
  have h: "0 \<le> month0 \<lparr>year = 2024, month0 = 11, mday = 25\<rparr>" "month0 \<lparr>year = 2024, month0 = 11, mday = 25\<rparr> \<le> 11"
    "valid_date \<lparr>year = 2024, month0 = 9, mday = 21\<rparr>"
    by (simp_all add: valid_date_def days_in_month_def)
  have n: "day_number \<lparr>year = 2024, month0 = 9, mday = 21\<rparr> = make_day 2024 11 (- 40)"
    by (simp add: day_number_def make_day_def day_from_year_def days_before_month_def leap_year_def)
  show ?thesis using set_date_iff_make_day [OF h, of "- 40"] h n by simp
qed

text \<open>
  C21. A printed date reads back: for a valid date of a year that is not negative,
  the digits of \<open>formatDate\<close>'s \<open>DD\<close>, \<open>MM\<close> and year fields are the day of
  the month, the month (counted from 1) and the year.
\<close>

theorem format_date_read_back:
  assumes "valid_date d" and "0 \<le> year d"
  shows "read_date (format_date d) = d"
proof -
  note p = format_date_parts [OF assms]
  have v: "0 \<le> month0 d" "1 \<le> mday d" using assms(1) by (simp_all add: valid_date_def)
  show ?thesis
    using pad2_nat_str [OF p(2)] pad2_nat_str [OF p(3)] v assms(2)
    by (simp add: p(1) read_date_def jsdate.equality)
qed

theorem format_date_read_back_witness:
  "valid_date \<lparr>year = 2025, month0 = 0, mday = 4\<rparr> \<and> (0::int) \<le> 2025 \<and>
   read_date (format_date \<lparr>year = 2025, month0 = 0, mday = 4\<rparr>) = \<lparr>year = 2025, month0 = 0, mday = 4\<rparr> \<and>
   format_date \<lparr>year = 2025, month0 = 0, mday = 4\<rparr> = ''04/01/2025''"
proof -
  have h: "valid_date \<lparr>year = 2025, month0 = 0, mday = 4\<rparr>" "0 \<le> year \<lparr>year = 2025, month0 = 0, mday = 4\<rparr>"
    by (simp_all add: valid_date_def days_in_month_def)
  have f: "format_date \<lparr>year = 2025, month0 = 0, mday = 4\<rparr> = ''04/01/2025''"
    by (simp add: format_date_def pad2_def int_str_def eval_simps)
  show ?thesis using format_date_read_back [OF h] h f by simp
qed

text \<open>
  C22. For a valid date of a four-digit year, \<open>formatDate\<close> prints exactly ten
  characters in the shape \<open>DD/DD/DDDD\<close>: two digits, a slash, two digits, a slash and
  four digits; the day and month are zero-padded.
\<close>

theorem format_date_shape:
  assumes "valid_date d" and "1000 \<le> year d" and "year d \<le> 9999"
  shows "map (\<lambda>c. if is_digit c then CHR ''D'' else c) (format_date d) = ''DD/DD/DDDD''"
proof -
  have y: "0 \<le> year d" using assms(2) by simp
  note p = format_date_parts [OF assms(1) y]
  have "1000 \<le> nat (year d)" "nat (year d) < 10000" using assms(2,3) by simp_all
  then have "length (nat_str (nat (year d))) = 4" using nat_str_length [of 3 "nat (year d)"] by simp
  then show ?thesis
    using pad2_nat_str [OF p(2)] pad2_nat_str [OF p(3)] nat_str_digits [of "nat (year d)"]
    by (simp add: p(1) map_digits_D slash_not_digit numeral_eq_Suc)
qed
theorem format_date_shape_witness:
  "valid_date \<lparr>year = 2024, month0 = 1, mday = 29\<rparr> \<and> (1000::int) \<le> 2024 \<and> (2024::int) \<le> 9999 \<and>
   map (\<lambda>c. if is_digit c then CHR ''D'' else c) (format_date \<lparr>year = 2024, month0 = 1, mday = 29\<rparr>) = ''DD/DD/DDDD''"
proof -
  have h: "valid_date \<lparr>year = 2024, month0 = 1, mday = 29\<rparr>" "1000 \<le> year \<lparr>year = 2024, month0 = 1, mday = 29\<rparr>"
    "year \<lparr>year = 2024, month0 = 1, mday = 29\<rparr> \<le> 9999"
    by (simp_all add: valid_date_def days_in_month_def leap_year_def)
  show ?thesis using format_date_shape [OF h] h by simp
qed

end
