(* ===== verification/App.thy ===== *)
theory App
  imports Ledger Dates
begin

text \<open>
  The page of \<open>src/script.js\<close> as a state machine. The state \<open>dom\<close> holds what the
  handlers read and write: the form inputs, the rows of \<open>#itemsPreviewTable\<close>, the
  closure variable \<open>itemCount\<close> (line 68), the totals texts, the body of
  \<open>#invoiceTable\<close>, the preview fields, the inline styles of the two panels, of
  \<open>body\<close> and of \<open>#invoice\<close>, the alerts shown, the download handlers suspended at an
  \<open>await\<close>, and the PDF files saved. An event is a user action or the resumption of a
  suspended download handler; \<open>step\<close> runs the handler of one event to its end or to
  its next \<open>await\<close>. JavaScript runs handlers one at a time, so a run of the page is a
  list of events; the resumption of a download handler may come after any other event,
  which is how interleavings are modelled. \<open>console.log\<close> output is not modelled.
\<close>

record orig_styles =
  o_body_class :: jstring
  o_body_padding :: jstring
  o_body_margin :: jstring
  o_inv_width :: jstring
  o_inv_margin :: jstring
  o_inv_padding :: jstring

text \<open>The fixed configuration handed to \<open>html2pdf\<close> (lines 195-211).\<close>

record pdf_options =
  opt_margin :: int
  opt_filename :: jstring
  opt_image_type :: jstring
  opt_image_quality :: rat
  opt_scale :: int
  opt_use_cors :: bool
  opt_allow_taint :: bool
  opt_background :: jstring
  opt_logging :: bool
  opt_unit :: jstring
  opt_format :: jstring
  opt_orientation :: jstring

text \<open>What the \<open>#invoice\<close> region shows, and hence what a PDF is rendered from.\<close>

record invoice_view =
  v_client_name :: jstring
  v_client_address :: jstring
  v_client_phone :: jstring
  v_invoice_no :: jstring
  v_invoice_date :: jstring
  v_due_date :: jstring
  v_rows :: "inv_row list"
  v_subtotal :: jstring
  v_tax :: jstring
  v_total :: jstring

record pdf_file =
  pdf_opts :: pdf_options
  pdf_view :: invoice_view

text \<open>
  A download handler suspended at an \<open>await\<close>: before the 1.5 s timer of line 193
  fires (\<open>Waiting\<close>), or after it, while \<open>html2pdf\<close> renders the captured view and
  saves it (\<open>Rendering\<close>, line 213). It keeps the styles it captured on lines 166-173.
\<close>

datatype dl_phase = Waiting | Rendering invoice_view

record pending_dl =
  saved :: orig_styles
  phase :: dl_phase

record dom =
  client_name_input :: jstring
  client_address_input :: jstring
  client_phone_input :: jstring
  invoice_number_input :: jstring
  product_input :: jstring
  grade_input :: jstring
  unit_price_input :: jstring
  quantity_input :: jstring
  tax_input :: jstring
  items :: "item_row list"
  item_count :: nat
  subtotal_text :: jstring
  tax_text :: jstring
  total_text :: jstring
  has_invoice_table :: bool
  invoice_rows :: "inv_row list"
  client_name :: jstring
  client_address :: jstring
  client_phone :: jstring
  invoice_no :: jstring
  invoice_date :: jstring
  due_date :: jstring
  step_client_display :: jstring
  step_preview_display :: jstring
  body_class :: jstring
  body_padding :: jstring
  body_margin :: jstring
  body_display :: jstring
  body_align :: jstring
  body_justify :: jstring
  inv_width :: jstring
  inv_margin :: jstring
  inv_padding :: jstring
  scroll :: "int \<times> int"
  alerts :: "jstring list"
  pending :: "pending_dl list"
  pdfs :: "pdf_file list"

datatype input_field =
  ClientNameIn | ClientAddressIn | ClientPhoneIn | InvoiceNumberIn
  | ProductIn | GradeIn | UnitPriceIn | QuantityIn | TaxIn

datatype event =
  Type input_field jstring
  | AddItemClick
  | ToPreviewClick jsdate
  | BackClick
  | DownloadClick
  | DownloadTimer nat
  | DownloadSettled nat bool

text \<open>The two display modes of the specification, read off the preview panel's style.\<close>

datatype mode = Editing | Previewing

definition mode_of :: "dom \<Rightarrow> mode" where
  "mode_of s = (if step_preview_display s = ''block'' then Previewing else Editing)"

section \<open>Handlers\<close>

definition max_items :: nat where
  "max_items = 5"

definition export_opt :: pdf_options where
  "export_opt =
     \<lparr>opt_margin = 0, opt_filename = ''Hillsville_Farms_Invoice.pdf'', opt_image_type = ''jpeg'',
      opt_image_quality = 98 / 100, opt_scale = 2, opt_use_cors = True, opt_allow_taint = True,
      opt_background = ''#ffffff'', opt_logging = False, opt_unit = ''mm'', opt_format = ''a4'',
      opt_orientation = ''portrait''\<rparr>"

text \<open>Typing into a form field.\<close>

fun set_input :: "input_field \<Rightarrow> jstring \<Rightarrow> dom \<Rightarrow> dom" where
  "set_input ClientNameIn v s = s\<lparr>client_name_input := v\<rparr>"
| "set_input ClientAddressIn v s = s\<lparr>client_address_input := v\<rparr>"
| "set_input ClientPhoneIn v s = s\<lparr>client_phone_input := v\<rparr>"
| "set_input InvoiceNumberIn v s = s\<lparr>invoice_number_input := v\<rparr>"
| "set_input ProductIn v s = s\<lparr>product_input := v\<rparr>"
| "set_input GradeIn v s = s\<lparr>grade_input := v\<rparr>"
| "set_input UnitPriceIn v s = s\<lparr>unit_price_input := v\<rparr>"
| "set_input QuantityIn v s = s\<lparr>quantity_input := v\<rparr>"
| "set_input TaxIn v s = s\<lparr>tax_input := v\<rparr>"

text \<open>\<open>updateTotals\<close> (lines 16-61).\<close>

definition update_totals :: "dom \<Rightarrow> dom" where
  "update_totals s =
     (case totals_texts (items s) (tax_input s) of (st, tx, tot) \<Rightarrow>
        s\<lparr>subtotal_text := st, tax_text := tx, total_text := tot,
          invoice_rows := (if has_invoice_table s then invoice_rows_of (items s) else invoice_rows s)\<rparr>)"

text \<open>The add-item handler (lines 72-111).\<close>

definition add_item :: "dom \<Rightarrow> dom" where
  "add_item s =
     (if max_items \<le> item_count s then s\<lparr>alerts := alerts s @ [''Maximum 5 items allowed.'']\<rparr>
      else
        (let p = js_trim (product_input s); g = js_trim (grade_input s);
             unit_price = or_zero (parse_float (unit_price_input s));
             qty = or_zero (parse_float (quantity_input s))
         in if p = [] \<or> g = [] \<or> js_le unit_price (Fin 0) \<or> js_le qty (Fin 0)
            then s\<lparr>alerts := alerts s @ [''Please fill all fields with valid numbers.'']\<rparr>
            else update_totals
                   (s\<lparr>items := items s @ [make_row p g unit_price qty], item_count := item_count s + 1,
                      product_input := [], grade_input := [], unit_price_input := [], quantity_input := []\<rparr>)))"

text \<open>The preview handler (lines 114-140); \<open>today\<close> is \<open>new Date()\<close>.\<close>

definition to_preview :: "jsdate \<Rightarrow> dom \<Rightarrow> dom" where
  "to_preview today s =
     (let n = js_trim (invoice_number_input s);
          s1 = s\<lparr>client_name := client_name_input s, client_address := client_address_input s,
                 client_phone := client_phone_input s, invoice_no := (if n = [] then ''0001'' else n),
                 invoice_date := format_date today, due_date := format_date (due_date_of today)\<rparr>;
          s2 = update_totals s1
      in s2\<lparr>step_client_display := ''none'', step_preview_display := ''block'',
            body_display := ''block'', body_align := ''unset'', body_justify := ''unset''\<rparr>)"

text \<open>The back handler (lines 143-151).\<close>

definition back_to_items :: "dom \<Rightarrow> dom" where
  "back_to_items s =
     s\<lparr>step_preview_display := ''none'', step_client_display := ''block'',
       body_display := ''flex'', body_align := ''center'', body_justify := ''center''\<rparr>"

text \<open>The styles saved on lines 166-173.\<close>

definition capture_styles :: "dom \<Rightarrow> orig_styles" where
  "capture_styles s =
     \<lparr>o_body_class = body_class s, o_body_padding = body_padding s, o_body_margin = body_margin s,
      o_inv_width = inv_width s, o_inv_margin = inv_margin s, o_inv_padding = inv_padding s\<rparr>"

text \<open>The download handler up to its first \<open>await\<close> (lines 154-193).\<close>

definition download_start :: "dom \<Rightarrow> dom" where
  "download_start s =
     (let s1 = update_totals s; orig = capture_styles s1
      in s1\<lparr>step_client_display := ''none'', step_preview_display := ''block'',
            body_class := [], body_padding := ''0'', body_margin := ''0'', body_display := ''block'',
            inv_width := ''794px'', inv_margin := ''0 auto'', inv_padding := ''0 20px 20px 20px'',
            scroll := (0, 0), pending := pending s1 @ [\<lparr>saved = orig, phase = Waiting\<rparr>]\<rparr>)"

definition view_of :: "dom \<Rightarrow> invoice_view" where
  "view_of s =
     \<lparr>v_client_name = client_name s, v_client_address = client_address s, v_client_phone = client_phone s,
      v_invoice_no = invoice_no s, v_invoice_date = invoice_date s, v_due_date = due_date s,
      v_rows = invoice_rows s, v_subtotal = subtotal_text s, v_tax = tax_text s, v_total = total_text s\<rparr>"

text \<open>The timer fires: \<open>html2pdf\<close> starts rendering the current \<open>#invoice\<close> (lines 195-213).\<close>

definition download_timer :: "nat \<Rightarrow> dom \<Rightarrow> dom" where
  "download_timer i s =
     (if i < length (pending s) \<and> phase (pending s ! i) = Waiting
      then s\<lparr>pending := (pending s)[i := (pending s ! i)\<lparr>phase := Rendering (view_of s)\<rparr>]\<rparr>
      else s)"

text \<open>Lines 216-222: the captured styles are written back, the display is cleared.\<close>

definition restore_styles :: "orig_styles \<Rightarrow> dom \<Rightarrow> dom" where
  "restore_styles orig s =
     s\<lparr>body_class := o_body_class orig, body_padding := o_body_padding orig, body_margin := o_body_margin orig,
       body_display := [], inv_width := o_inv_width orig, inv_margin := o_inv_margin orig,
       inv_padding := o_inv_padding orig\<rparr>"

text \<open>
  \<open>html2pdf(...).save()\<close> settles (line 213). On success the file is saved and the
  handler runs to its end; on failure the \<open>await\<close> throws and lines 216-224 never run.
\<close>

definition download_settled :: "nat \<Rightarrow> bool \<Rightarrow> dom \<Rightarrow> dom" where
  "download_settled i ok s =
     (if i < length (pending s) then
        (case phase (pending s ! i) of
           Waiting \<Rightarrow> s
         | Rendering v \<Rightarrow>
             (let s1 = s\<lparr>pending := take i (pending s) @ drop (Suc i) (pending s)\<rparr>
              in if ok then restore_styles (saved (pending s ! i))
                              (s1\<lparr>pdfs := pdfs s1 @ [\<lparr>pdf_opts = export_opt, pdf_view = v\<rparr>]\<rparr>)
                 else s1))
      else s)"

fun step :: "event \<Rightarrow> dom \<Rightarrow> dom" where
  "step (Type f v) s = set_input f v s"
| "step AddItemClick s = add_item s"
| "step (ToPreviewClick today) s = to_preview today s"
| "step BackClick s = back_to_items s"
| "step DownloadClick s = download_start s"
| "step (DownloadTimer i) s = download_timer i s"
| "step (DownloadSettled i ok) s = download_settled i ok s"

text \<open>A run of the page: the events in the order in which their handlers ran.\<close>

definition run :: "event list \<Rightarrow> dom \<Rightarrow> dom" where
  "run es s = foldl (\<lambda>s e. step e s) s es"

text \<open>
  The page as loaded: no items, no alert, no download in progress, and no inline
  style set on the panels, the body or the invoice. The markup of the page is not
  part of the repository; the other fields are left arbitrary.
\<close>

definition initial :: "dom \<Rightarrow> bool" where
  "initial s \<longleftrightarrow> items s = [] \<and> item_count s = 0 \<and> alerts s = [] \<and> pending s = [] \<and> pdfs s = []
     \<and> step_client_display s = [] \<and> step_preview_display s = [] \<and> body_padding s = []
     \<and> body_margin s = [] \<and> body_display s = [] \<and> inv_width s = [] \<and> inv_margin s = []
     \<and> inv_padding s = []"

inductive reachable :: "dom \<Rightarrow> bool" where
  start: "initial s \<Longrightarrow> reachable s"
| step: "reachable s \<Longrightarrow> reachable (step e s)"


section \<open>Invariants and input sequences\<close>

text \<open>The ledger invariant: the counter agrees with the table, which holds at most five rows.\<close>

definition ledger_inv :: "dom \<Rightarrow> bool" where
  "ledger_inv s \<longleftrightarrow> item_count s = length (items s) \<and> length (items s) \<le> max_items"

text \<open>Exactly one of the two panels is shown once either has been shown.\<close>

definition panels_inv :: "dom \<Rightarrow> bool" where
  "panels_inv s \<longleftrightarrow> (step_preview_display s = ''block'') = (step_client_display s = ''none'')"

text \<open>Filling in the four item fields and clicking the add button.\<close>

definition add_events :: "jstring \<times> jstring \<times> jstring \<times> jstring \<Rightarrow> event list" where
  "add_events x = (case x of (p, g, u, q) \<Rightarrow>
     [Type ProductIn p, Type GradeIn g, Type UnitPriceIn u, Type QuantityIn q, AddItemClick])"

text \<open>The inputs that pass the checks of lines 73-86 (capacity apart).\<close>

definition accepted :: "jstring \<times> jstring \<times> jstring \<times> jstring \<Rightarrow> bool" where
  "accepted x = (case x of (p, g, u, q) \<Rightarrow>
     js_trim p \<noteq> [] \<and> js_trim g \<noteq> [] \<and> \<not> js_le (or_zero (parse_float u)) (Fin 0)
     \<and> \<not> js_le (or_zero (parse_float q)) (Fin 0))"

text \<open>The row such inputs add.\<close>

definition row_of :: "jstring \<times> jstring \<times> jstring \<times> jstring \<Rightarrow> item_row" where
  "row_of x = (case x of (p, g, u, q) \<Rightarrow>
     make_row (js_trim p) (js_trim g) (or_zero (parse_float u)) (or_zero (parse_float q)))"

text \<open>A freshly loaded page, used by the examples below.\<close>

definition sample_page :: dom where
  "sample_page =
     \<lparr>client_name_input = [], client_address_input = [], client_phone_input = [], invoice_number_input = [],
      product_input = [], grade_input = [], unit_price_input = [], quantity_input = [], tax_input = [],
      items = [], item_count = 0, subtotal_text = [], tax_text = [], total_text = [],
      has_invoice_table = True, invoice_rows = [], client_name = [], client_address = [], client_phone = [],
      invoice_no = [], invoice_date = [], due_date = [], step_client_display = [], step_preview_display = [],
      body_class = ''bg-gray-100 flex items-center justify-center'', body_padding = [], body_margin = [],
      body_display = [], body_align = [], body_justify = [], inv_width = [], inv_margin = [], inv_padding = [],
      scroll = (0, 0), alerts = [], pending = [], pdfs = []\<rparr>"

section \<open>Lemmas\<close>

lemma update_totals_frame [simp]:
  "items (update_totals s) = items s" "item_count (update_totals s) = item_count s"
  "alerts (update_totals s) = alerts s" "pending (update_totals s) = pending s"
  "pdfs (update_totals s) = pdfs s" "tax_input (update_totals s) = tax_input s"
  "step_client_display (update_totals s) = step_client_display s"
  "step_preview_display (update_totals s) = step_preview_display s"
  "body_class (update_totals s) = body_class s" "body_padding (update_totals s) = body_padding s"
  "body_margin (update_totals s) = body_margin s" "body_display (update_totals s) = body_display s"
  "inv_width (update_totals s) = inv_width s" "inv_margin (update_totals s) = inv_margin s"
  "inv_padding (update_totals s) = inv_padding s" "has_invoice_table (update_totals s) = has_invoice_table s"
  by (simp_all add: update_totals_def split: prod.split)

lemma update_totals_texts:
  "(subtotal_text (update_totals s), tax_text (update_totals s), total_text (update_totals s)) =
     totals_texts (items s) (tax_input s)"
  by (simp add: update_totals_def split: prod.split)

lemma add_item_full:
  "max_items \<le> item_count s \<Longrightarrow> add_item s = s\<lparr>alerts := alerts s @ [''Maximum 5 items allowed.'']\<rparr>"
  by (simp add: add_item_def)

lemma add_item_rejected:
  "item_count s < max_items \<Longrightarrow>
   js_trim (product_input s) = [] \<or> js_trim (grade_input s) = [] \<or>
   js_le (or_zero (parse_float (unit_price_input s))) (Fin 0) \<or> js_le (or_zero (parse_float (quantity_input s))) (Fin 0) \<Longrightarrow>
   add_item s = s\<lparr>alerts := alerts s @ [''Please fill all fields with valid numbers.'']\<rparr>"
  by (auto simp: add_item_def Let_def)

lemma add_item_accepted:
  assumes "item_count s < max_items" and "js_trim (product_input s) \<noteq> []" and "js_trim (grade_input s) \<noteq> []"
    and "\<not> js_le (or_zero (parse_float (unit_price_input s))) (Fin 0)"
    and "\<not> js_le (or_zero (parse_float (quantity_input s))) (Fin 0)"
  shows "add_item s = update_totals
     (s\<lparr>items := items s @ [make_row (js_trim (product_input s)) (js_trim (grade_input s))
                              (or_zero (parse_float (unit_price_input s))) (or_zero (parse_float (quantity_input s)))],
        item_count := item_count s + 1,
        product_input := [], grade_input := [], unit_price_input := [], quantity_input := []\<rparr>)"
  using assms by (simp add: add_item_def Let_def)

lemma step_keeps_items:
  "e \<noteq> AddItemClick \<Longrightarrow> items (step e s) = items s \<and> item_count (step e s) = item_count s"
proof (cases e)
  case (Type f v)
  then show ?thesis by (cases f) simp_all
qed (auto simp: to_preview_def back_to_items_def download_start_def download_timer_def
        download_settled_def restore_styles_def Let_def split: dl_phase.split)

lemma add_item_ledger_inv: "ledger_inv s \<Longrightarrow> ledger_inv (add_item s)"
  by (auto simp: ledger_inv_def add_item_def Let_def)

lemma step_ledger_inv: "ledger_inv s \<Longrightarrow> ledger_inv (step e s)"
  using step_keeps_items [of e s] add_item_ledger_inv [of s]
  by (cases "e = AddItemClick") (auto simp: ledger_inv_def)

lemma reachable_ledger_inv: "reachable s \<Longrightarrow> ledger_inv s"
proof (induction rule: reachable.induct)
  case (start s)
  then show ?case by (simp add: initial_def ledger_inv_def max_items_def)
next
  case (step s e)
  from step.IH show ?case by (rule step_ledger_inv)
qed

lemma step_panels_inv:
  assumes "panels_inv s"
  shows "panels_inv (step e s)"
proof (cases e)
  case (Type f v)
  then show ?thesis using assms by (cases f) (simp_all add: panels_inv_def)
qed (use assms in \<open>auto simp: panels_inv_def add_item_def to_preview_def back_to_items_def download_start_def
        download_timer_def download_settled_def restore_styles_def Let_def split: dl_phase.split\<close>)

lemma reachable_panels_inv: "reachable s \<Longrightarrow> panels_inv s"
proof (induction rule: reachable.induct)
  case (start s)
  then show ?case by (simp add: initial_def panels_inv_def)
next
  case (step s e)
  from step.IH show ?case by (rule step_panels_inv)
qed

lemma run_Nil [simp]: "run [] s = s" and run_Cons [simp]: "run (e # es) s = run es (step e s)"
  by (simp_all add: run_def)

lemma run_append [simp]: "run (xs @ ys) s = run ys (run xs s)"
  by (simp add: run_def)

lemma run_add_events:
  assumes "item_count s < max_items" and "accepted x"
  shows "items (run (add_events x) s) = items s @ [row_of x] \<and> item_count (run (add_events x) s) = Suc (item_count s)"
  using assms by (cases x) (auto simp: add_events_def accepted_def row_of_def add_item_def Let_def)

lemma run_add_events_list:
  assumes "item_count s = length (items s)" and "length (items s) + length xs \<le> max_items"
    and "list_all accepted xs"
  shows "items (run (concat (map add_events xs)) s) = items s @ map row_of xs
         \<and> item_count (run (concat (map add_events xs)) s) = item_count s + length xs"
  using assms
proof (induction xs arbitrary: s)
  case Nil
  then show ?case by simp
next
  case (Cons x xs)
  let ?s1 = "run (add_events x) s"
  have one: "items ?s1 = items s @ [row_of x] \<and> item_count ?s1 = Suc (item_count s)"
    using Cons.prems by (intro run_add_events) auto
  then have "items (run (concat (map add_events xs)) ?s1) = items ?s1 @ map row_of xs
      \<and> item_count (run (concat (map add_events xs)) ?s1) = item_count ?s1 + length xs"
    using Cons.prems by (intro Cons.IH) auto
  with one show ?case by simp
qed

lemma capture_update_totals [simp]: "capture_styles (update_totals s) = capture_styles s"
  by (simp add: capture_styles_def)

lemma download_start_fields [simp]:
  "pending (download_start s) = pending s @ [\<lparr>saved = capture_styles s, phase = Waiting\<rparr>]"
  "pdfs (download_start s) = pdfs s" "items (download_start s) = items s"
  "body_class (download_start s) = []" "body_padding (download_start s) = ''0''"
  "body_margin (download_start s) = ''0''" "body_display (download_start s) = ''block''"
  "inv_width (download_start s) = ''794px''" "inv_margin (download_start s) = ''0 auto''"
  "inv_padding (download_start s) = ''0 20px 20px 20px''"
  "view_of (download_start s) = view_of (update_totals s)"
  by (simp_all add: download_start_def Let_def view_of_def)

lemma capture_download_start [simp]:
  "capture_styles (download_start s) =
     \<lparr>o_body_class = [], o_body_padding = ''0'', o_body_margin = ''0'', o_inv_width = ''794px'',
      o_inv_margin = ''0 auto'', o_inv_padding = ''0 20px 20px 20px''\<rparr>"
  by (simp add: capture_styles_def)

lemma download_timer_waiting:
  "i < length (pending s) \<Longrightarrow> phase (pending s ! i) = Waiting \<Longrightarrow>
   download_timer i s = s\<lparr>pending := (pending s)[i := (pending s ! i)\<lparr>phase := Rendering (view_of s)\<rparr>]\<rparr>"
  by (simp add: download_timer_def)

lemma download_settled_rendering:
  "i < length (pending s) \<Longrightarrow> phase (pending s ! i) = Rendering v \<Longrightarrow>
   download_settled i ok s =
     (if ok then restore_styles (saved (pending s ! i))
                   (s\<lparr>pending := take i (pending s) @ drop (Suc i) (pending s),
                      pdfs := pdfs s @ [\<lparr>pdf_opts = export_opt, pdf_view = v\<rparr>]\<rparr>)
      else s\<lparr>pending := take i (pending s) @ drop (Suc i) (pending s)\<rparr>)"
  by (simp add: download_settled_def Let_def)

lemma restore_styles_fields [simp]:
  "body_class (restore_styles orig s) = o_body_class orig"
  "body_padding (restore_styles orig s) = o_body_padding orig"
  "body_margin (restore_styles orig s) = o_body_margin orig"
  "body_display (restore_styles orig s) = []"
  "inv_width (restore_styles orig s) = o_inv_width orig"
  "inv_margin (restore_styles orig s) = o_inv_margin orig"
  "inv_padding (restore_styles orig s) = o_inv_padding orig"
  "pending (restore_styles orig s) = pending s" "pdfs (restore_styles orig s) = pdfs s"
  by (simp_all add: restore_styles_def)

lemmas download_simps = download_timer_waiting download_settled_rendering nth_append

lemma reachable_run: "reachable s \<Longrightarrow> reachable (run es s)"
proof (induction es arbitrary: s)
  case Nil
  then show ?case by simp
next
  case (Cons e es)
  then show ?case by (simp add: reachable.step)
qed

lemma initial_sample_page: "initial sample_page"
  by (simp add: initial_def sample_page_def)

lemma parse_float_digits_eval:
  "parse_float ''50'' = Fin 50" "parse_float ''2'' = Fin 2" "parse_float ''1'' = Fin 1"
  by (simp_all add: parse_float_def parse_unsigned_def is_digit_def js_space_def exponent_part_def
      decimal_value_def digits_val_def digit_val_def)

lemmas input_eval = parse_float_digits_eval js_trim_def js_space_def

lemma accepted_maize: "accepted (''Maize'', ''A'', ''50'', ''2'')"
  by (simp add: accepted_def input_eval)

text \<open>A page with five items, reached by adding them through the form.\<close>

lemma five_items_page:
  "reachable (run (concat (map add_events (replicate 5 (''Maize'', ''A'', ''50'', ''2'')))) sample_page) \<and>
   length (items (run (concat (map add_events (replicate 5 (''Maize'', ''A'', ''50'', ''2'')))) sample_page)) = 5"
proof -
  have "items (run (concat (map add_events (replicate 5 (''Maize'', ''A'', ''50'', ''2'')))) sample_page)
          = items sample_page @ map row_of (replicate 5 (''Maize'', ''A'', ''50'', ''2''))
        \<and> item_count (run (concat (map add_events (replicate 5 (''Maize'', ''A'', ''50'', ''2'')))) sample_page)
          = item_count sample_page + length (replicate 5 (''Maize'', ''A'', ''50'', ''2''))"
    by (rule run_add_events_list)
       (simp_all add: sample_page_def max_items_def list_all_iff accepted_maize)
  then show ?thesis
    using reachable_run [OF reachable.start [OF initial_sample_page]] by (simp add: sample_page_def)
qed

lemma run_add_events_totals:
  assumes "item_count s < max_items" and "accepted x"
  shows "(subtotal_text (run (add_events x) s), tax_text (run (add_events x) s), total_text (run (add_events x) s))
         = totals_texts (items (run (add_events x) s)) (tax_input s)"
  using assms update_totals_texts
  by (cases x) (auto simp: add_events_def accepted_def add_item_def Let_def)

text \<open>\<open>parseFloat\<close> reads a numeric prefix: a unit price typed as \<open>12abc\<close> is accepted
  as 12, and \<open>Infinity\<close> is accepted as a positive price.\<close>

lemma trailing_text_accepted:
  "accepted (''Maize'', ''A'', ''12abc'', ''1'') \<and> accepted (''Maize'', ''A'', ''Infinity'', ''1'')"
  by (simp add: accepted_def input_eval parse_float_def parse_unsigned_def is_digit_def exponent_part_def or_zero_def
      decimal_value_def digits_val_def digit_val_def)

section \<open>Properties of the page\<close>

text \<open>
  C1. Adding an item with non-blank product and grade and a positive unit price and
  quantity appends exactly one row at the end of the table, built from the trimmed names
  and the parsed numbers, with the amount cell showing the formatted product of price and
  quantity; the counter grows by one, no alert is shown, and the totals are recomputed
  from the new table and the current tax input.
\<close>

theorem add_item_appends_row:
  assumes "item_count s < max_items"
    and "js_trim (product_input s) \<noteq> []" and "js_trim (grade_input s) \<noteq> []"
    and "parse_float (unit_price_input s) = Fin u" and "0 < u"
    and "parse_float (quantity_input s) = Fin q" and "0 < q"
  shows "items (add_item s) = items s @ [make_row (js_trim (product_input s)) (js_trim (grade_input s)) (Fin u) (Fin q)]
         \<and> item_count (add_item s) = item_count s + 1 \<and> alerts (add_item s) = alerts s
         \<and> amount_cell (last (items (add_item s))) = naira # format_number (Fin (u * q))
         \<and> (subtotal_text (add_item s), tax_text (add_item s), total_text (add_item s))
             = totals_texts (items (add_item s)) (tax_input s)"
  using assms add_item_accepted [of s] update_totals_texts
  by (simp add: make_row_def)

theorem add_item_appends_row_witness:
  "let s = sample_page\<lparr>product_input := ''Maize'', grade_input := '' A '', unit_price_input := ''50'',
                       quantity_input := ''2''\<rparr> in
   item_count s < max_items \<and> js_trim (product_input s) \<noteq> [] \<and> js_trim (grade_input s) \<noteq> []
   \<and> parse_float (unit_price_input s) = Fin 50 \<and> (0::rat) < 50
   \<and> parse_float (quantity_input s) = Fin 2 \<and> (0::rat) < 2
   \<and> items (add_item s) = [make_row ''Maize'' ''A'' (Fin 50) (Fin 2)] \<and> item_count (add_item s) = 1"
proof -
  let ?s = "sample_page\<lparr>product_input := ''Maize'', grade_input := '' A '', unit_price_input := ''50'',
                       quantity_input := ''2''\<rparr>"
  have h: "item_count ?s < max_items" "js_trim (product_input ?s) \<noteq> []" "js_trim (grade_input ?s) \<noteq> []"
    "parse_float (unit_price_input ?s) = Fin 50" "(0::rat) < 50"
    "parse_float (quantity_input ?s) = Fin 2" "(0::rat) < 2"
    by (simp_all add: sample_page_def max_items_def input_eval)
  have t: "js_trim (product_input ?s) = ''Maize''" "js_trim (grade_input ?s) = ''A''"
    by (simp_all add: sample_page_def input_eval)
  show ?thesis using add_item_appends_row [OF h] h t by (simp add: sample_page_def)
qed

text \<open>
  C2. In every reachable state with five rows, a further click on the add button is
  rejected with the capacity alert and leaves the table and the counter unchanged.
\<close>

theorem sixth_item_rejected:
  assumes "reachable s" and "length (items s) = 5"
  shows "items (add_item s) = items s \<and> item_count (add_item s) = item_count s
         \<and> alerts (add_item s) = alerts s @ [''Maximum 5 items allowed.'']"
proof -
  have "item_count s = 5" using reachable_ledger_inv [OF assms(1)] assms(2) by (simp add: ledger_inv_def)
  then show ?thesis by (simp add: add_item_full max_items_def)
qed

theorem sixth_item_rejected_witness:
  "let s = run (concat (map add_events (replicate 5 (''Maize'', ''A'', ''50'', ''2'')))) sample_page in
   reachable s \<and> length (items s) = 5 \<and> items (add_item s) = items s
   \<and> alerts (add_item s) = alerts s @ [''Maximum 5 items allowed.'']"
  using sixth_item_rejected [OF five_items_page [THEN conjunct1] five_items_page [THEN conjunct2]]
    five_items_page by (simp add: Let_def)

text \<open>
  C3. Below capacity, an empty (after trimming) product or grade, or a unit price or
  quantity that is not positive after \<open>parseFloat(...) || 0\<close>, is rejected with the
  validation alert and leaves the table and the counter unchanged.
\<close>

theorem invalid_item_rejected:
  assumes "item_count s < max_items"
    and "js_trim (product_input s) = [] \<or> js_trim (grade_input s) = [] \<or>
         js_le (or_zero (parse_float (unit_price_input s))) (Fin 0) \<or>
         js_le (or_zero (parse_float (quantity_input s))) (Fin 0)"
  shows "items (add_item s) = items s \<and> item_count (add_item s) = item_count s
         \<and> alerts (add_item s) = alerts s @ [''Please fill all fields with valid numbers.'']"
  using add_item_rejected [OF assms] by simp

theorem invalid_item_rejected_witness:
  "let s = sample_page\<lparr>product_input := ''   '', grade_input := ''A'', unit_price_input := ''50'',
                       quantity_input := ''2''\<rparr> in
   item_count s < max_items \<and> js_trim (product_input s) = [] \<and>
   items (add_item s) = [] \<and> alerts (add_item s) = [''Please fill all fields with valid numbers.'']"
proof -
  let ?s = "sample_page\<lparr>product_input := ''   '', grade_input := ''A'', unit_price_input := ''50'',
                       quantity_input := ''2''\<rparr>"
  have h: "item_count ?s < max_items" by (simp add: sample_page_def max_items_def)
  have p: "js_trim (product_input ?s) = []" by (simp add: sample_page_def input_eval)
  show ?thesis using invalid_item_rejected [OF h] h p by (simp add: sample_page_def)
qed

text \<open>
  C4. In every reachable state the counter \<open>itemCount\<close> equals the number of rows of
  the table, and the table holds at most five rows.
\<close>

theorem reachable_ledger_bounded:
  assumes "reachable s"
  shows "item_count s = length (items s) \<and> length (items s) \<le> 5"
  using reachable_ledger_inv [OF assms] by (simp add: ledger_inv_def max_items_def)

theorem reachable_ledger_bounded_witness:
  "let s = run (concat (map add_events (replicate 5 (''Maize'', ''A'', ''50'', ''2'')))) sample_page in
   reachable s \<and> item_count s = length (items s) \<and> length (items s) \<le> 5"
  using reachable_ledger_bounded [OF five_items_page [THEN conjunct1]] five_items_page by (simp add: Let_def)

text \<open>
  C5. Filling in and adding a sequence of acceptable items, as long as the capacity is
  not exceeded, appends one row per item, in the order of the additions.
\<close>

theorem added_items_in_order:
  assumes "item_count s = length (items s)" and "length (items s) + length xs \<le> 5"
    and "list_all accepted xs"
  shows "items (run (concat (map add_events xs)) s) = items s @ map row_of xs
         \<and> item_count (run (concat (map add_events xs)) s) = item_count s + length xs"
  using assms by (intro run_add_events_list) (simp_all add: max_items_def)

theorem added_items_in_order_witness:
  "item_count sample_page = length (items sample_page) \<and>
   length (items sample_page) + length [(''Maize'', ''A'', ''50'', ''2''), (''Rice'', ''B'', ''1'', ''1'')] \<le> 5 \<and>
   list_all accepted [(''Maize'', ''A'', ''50'', ''2''), (''Rice'', ''B'', ''1'', ''1'')] \<and>
   items (run (concat (map add_events [(''Maize'', ''A'', ''50'', ''2''), (''Rice'', ''B'', ''1'', ''1'')])) sample_page)
     = [make_row ''Maize'' ''A'' (Fin 50) (Fin 2), make_row ''Rice'' ''B'' (Fin 1) (Fin 1)]"
proof -
  have h: "item_count sample_page = length (items sample_page)"
    "length (items sample_page) + length [(''Maize'', ''A'', ''50'', ''2''), (''Rice'', ''B'', ''1'', ''1'')] \<le> 5"
    "list_all accepted [(''Maize'', ''A'', ''50'', ''2''), (''Rice'', ''B'', ''1'', ''1'')]"
    by (simp_all add: sample_page_def accepted_def input_eval)
  have r: "map row_of [(''Maize'', ''A'', ''50'', ''2''), (''Rice'', ''B'', ''1'', ''1'')] =
           [make_row ''Maize'' ''A'' (Fin 50) (Fin 2), make_row ''Rice'' ''B'' (Fin 1) (Fin 1)]"
    by (simp add: row_of_def input_eval)
  show ?thesis using added_items_in_order [OF h] h r by (simp add: sample_page_def)
qed

text \<open>
  C13. Every event other than the add button, in particular going to the preview, going
  back, and every step of the download, leaves the rows of the table and the counter
  unchanged.
\<close>

theorem navigation_keeps_ledger:
  assumes "e \<noteq> AddItemClick"
  shows "items (step e s) = items s \<and> item_count (step e s) = item_count s"
  using assms by (rule step_keeps_items)

theorem navigation_keeps_ledger_witness:
  "let s = run [ToPreviewClick \<lparr>year = 2024, month0 = 11, mday = 25\<rparr>] sample_page in
   BackClick \<noteq> AddItemClick \<and> items (step BackClick s) = items s \<and> item_count (step BackClick s) = item_count s
   \<and> mode_of s = Previewing \<and> mode_of (step BackClick s) = Editing"
  using navigation_keeps_ledger [of BackClick]
  by (simp add: Let_def mode_of_def to_preview_def back_to_items_def)

text \<open>
  C14. The two display modes are exclusive: in every reachable state the page is in
  preview mode exactly when the form panel is hidden.
\<close>

theorem reachable_one_panel:
  assumes "reachable s"
  shows "(mode_of s = Previewing) = (step_client_display s = ''none'')"
  using reachable_panels_inv [OF assms] by (simp add: panels_inv_def mode_of_def)

theorem reachable_one_panel_witness:
  "let s = run [ToPreviewClick \<lparr>year = 2024, month0 = 11, mday = 25\<rparr>] sample_page in
   reachable s \<and> mode_of s = Previewing \<and> step_client_display s = ''none''"
proof -
  have r: "reachable (run [ToPreviewClick \<lparr>year = 2024, month0 = 11, mday = 25\<rparr>] sample_page)"
    by (rule reachable_run [OF reachable.start [OF initial_sample_page]])
  show ?thesis using reachable_one_panel [OF r] r by (simp add: Let_def mode_of_def to_preview_def)
qed

text \<open>
  C16. A download that runs without interference and succeeds saves one PDF, rendered
  from the invoice region with the totals recomputed just before the export and with the
  fixed options, and writes back the captured body and invoice styles; the body display
  is cleared, not restored.
\<close>

theorem download_success_restores:
  "let n = length (pending s); s' = run [DownloadClick, DownloadTimer n, DownloadSettled n True] s in
   body_class s' = body_class s \<and> body_padding s' = body_padding s \<and> body_margin s' = body_margin s
   \<and> inv_width s' = inv_width s \<and> inv_margin s' = inv_margin s \<and> inv_padding s' = inv_padding s
   \<and> body_display s' = [] \<and> pending s' = pending s
   \<and> pdfs s' = pdfs s @ [\<lparr>pdf_opts = export_opt, pdf_view = view_of (update_totals s)\<rparr>]"
  by (simp add: download_simps capture_styles_def)

text \<open>
  C17. If the PDF library fails, the rest of the download handler does not run: no file
  is saved and the page stays in the export layout (body class cleared, zero padding and
  margin, fixed invoice width), contrary to the restoration the specification requires
  on every exit path.
\<close>

theorem download_failure_keeps_export_layout:
  "let n = length (pending s); s' = run [DownloadClick, DownloadTimer n, DownloadSettled n False] s in
   body_class s' = [] \<and> body_padding s' = ''0'' \<and> body_margin s' = ''0''
   \<and> inv_width s' = ''794px'' \<and> inv_margin s' = ''0 auto'' \<and> inv_padding s' = ''0 20px 20px 20px''
   \<and> pending s' = pending s \<and> pdfs s' = pdfs s"
  by (simp add: download_simps)

text \<open>
  C18. Two clicks on the download button before the first export finishes capture the
  export layout as the original styles of the second export: even when both succeed
  and both files are saved, the page is left in the export layout.
\<close>

theorem overlapping_downloads_keep_export_layout:
  "let n = length (pending s);
       s' = run [DownloadClick, DownloadClick, DownloadTimer n, DownloadTimer (Suc n),
                 DownloadSettled n True, DownloadSettled n True] s in
   body_class s' = [] \<and> body_padding s' = ''0'' \<and> body_margin s' = ''0''
   \<and> inv_width s' = ''794px'' \<and> inv_margin s' = ''0 auto'' \<and> inv_padding s' = ''0 20px 20px 20px''
   \<and> pending s' = pending s \<and> length (pdfs s') = length (pdfs s) + 2"
  by (simp add: download_simps)

end
