(* ===== verification/Export.thy ===== *)
theory Export
  imports App
begin

text \<open>
  The PDF export of \<open>src/script.js\<close> (lines 154-225) over whole runs of the page.
  The handler itself is modelled in \<open>App\<close> (\<open>download_start\<close>,
  \<open>download_timer\<close>, \<open>download_settled\<close>); this theory states what the saved
  files contain and when. \<open>synced\<close> says that the invoice table and the totals texts
  are those \<open>updateTotals\<close> computes from the current item rows; it holds after
  every call of \<open>updateTotals\<close> and no other handler breaks it. \<open>export_inv\<close>
  says that while a download is pending the page is synced, and that every view being
  rendered and every saved file is internally consistent (\<open>view_ok\<close>): its table
  is the copy of its item rows padded to five, its totals are computed from those
  rows. \<open>rows_items\<close> recovers the item rows of an exported table;
  \<open>settle_events\<close> runs a schedule of resumptions, \<open>valid_schedule\<close> says that
  it finishes every pending download.
\<close>

definition rows_items :: "inv_row list \<Rightarrow> item_row list" where
  "rows_items rows = concat (map (\<lambda>r. case r of Item x \<Rightarrow> [x] | Blank \<Rightarrow> []) rows)"

definition synced :: "dom \<Rightarrow> bool" where
  "synced s \<longleftrightarrow> invoice_rows s = invoice_rows_of (items s)
     \<and> (subtotal_text s, tax_text s, total_text s) \<in> range (totals_texts (items s))"

definition view_ok :: "invoice_view \<Rightarrow> bool" where
  "view_ok v \<longleftrightarrow> v_rows v = invoice_rows_of (rows_items (v_rows v))
     \<and> (v_subtotal v, v_tax v, v_total v) \<in> range (totals_texts (rows_items (v_rows v)))"

definition export_inv :: "dom \<Rightarrow> bool" where
  "export_inv s \<longleftrightarrow> has_invoice_table s \<longrightarrow>
     (pending s \<noteq> [] \<longrightarrow> synced s)
     \<and> (\<forall>p \<in> set (pending s). \<forall>v. phase p = Rendering v \<longrightarrow> view_ok v)
     \<and> (\<forall>f \<in> set (pdfs s). view_ok (pdf_view f) \<and> pdf_opts f = export_opt)"

text \<open>
  A schedule of resumptions: at each stage some still pending download, given by its
  position among those pending, has its timer fire and its promise settle with its own
  outcome. \<open>valid_schedule n\<close> holds of the schedules that finish \<open>n\<close> pending
  downloads in some order; every order is one of them.
\<close>

definition settle_events :: "(nat \<times> bool) list \<Rightarrow> event list" where
  "settle_events sched = concat (map (\<lambda>(i, ok). [DownloadTimer i, DownloadSettled i ok]) sched)"

fun valid_schedule :: "nat \<Rightarrow> (nat \<times> bool) list \<Rightarrow> bool" where
  "valid_schedule n [] \<longleftrightarrow> n = 0"
| "valid_schedule n ((i, ok) # sched) \<longleftrightarrow> i < n \<and> valid_schedule (n - 1) sched"

lemma rows_items_invoice_rows_of [simp]: "rows_items (invoice_rows_of xs) = xs"
  by (induction xs) (simp_all add: rows_items_def invoice_rows_of_def)

lemma update_totals_rows: "has_invoice_table s \<Longrightarrow> invoice_rows (update_totals s) = invoice_rows_of (items s)"
  by (simp add: update_totals_def split: prod.split)

lemma synced_update_totals: "has_invoice_table s \<Longrightarrow> synced (update_totals s)"
  unfolding synced_def using update_totals_rows [of s] update_totals_texts [of s]
    rangeI [of "totals_texts (items s)" "tax_input s"] by simp

lemma synced_view_ok: "synced s \<Longrightarrow> view_ok (view_of s)"
  by (simp add: synced_def view_ok_def view_of_def)

lemma set_input_frame [simp]:
  "items (set_input f v s) = items s" "invoice_rows (set_input f v s) = invoice_rows s"
  "subtotal_text (set_input f v s) = subtotal_text s" "tax_text (set_input f v s) = tax_text s"
  "total_text (set_input f v s) = total_text s" "pending (set_input f v s) = pending s"
  "pdfs (set_input f v s) = pdfs s" "has_invoice_table (set_input f v s) = has_invoice_table s"
  by (cases f; simp)+

lemma add_item_synced: "has_invoice_table s \<Longrightarrow> synced s \<Longrightarrow> synced (add_item s)"
  by (simp add: add_item_def Let_def synced_update_totals) (simp add: synced_def)

lemma handler_frame [simp]:
  "pending (add_item s) = pending s" "pdfs (add_item s) = pdfs s"
  "has_invoice_table (add_item s) = has_invoice_table s"
  "pending (to_preview t s) = pending s" "pdfs (to_preview t s) = pdfs s"
  "has_invoice_table (to_preview t s) = has_invoice_table s"
  "pending (back_to_items s) = pending s" "pdfs (back_to_items s) = pdfs s"
  "has_invoice_table (back_to_items s) = has_invoice_table s"
  "has_invoice_table (download_start s) = has_invoice_table s"
  "has_invoice_table (download_timer i s) = has_invoice_table s"
  "has_invoice_table (download_settled i ok s) = has_invoice_table s"
  by (simp_all add: add_item_def to_preview_def back_to_items_def download_start_def download_timer_def
      download_settled_def restore_styles_def Let_def split: dl_phase.split)

lemma step_has_invoice_table [simp]: "has_invoice_table (step e s) = has_invoice_table s"
  by (cases e) simp_all

lemma run_has_invoice_table [simp]: "has_invoice_table (run es s) = has_invoice_table s"
  by (induction es arbitrary: s) simp_all

lemma step_synced:
  assumes "has_invoice_table s" and "synced s"
  shows "synced (step e s)"
proof (cases e)
  case (Type f v)
  then show ?thesis using assms(2) by (simp add: synced_def)
next
  case AddItemClick
  then show ?thesis using add_item_synced [OF assms] by simp
next
  case (ToPreviewClick t)
  then show ?thesis
    using synced_update_totals [unfolded synced_def, of "s\<lparr>client_name := client_name_input s,
        client_address := client_address_input s, client_phone := client_phone_input s,
        invoice_no := (if js_trim (invoice_number_input s) = [] then ''0001'' else js_trim (invoice_number_input s)),
        invoice_date := format_date t, due_date := format_date (due_date_of t)\<rparr>"] assms(1)
    by (simp add: to_preview_def Let_def synced_def)
next
  case BackClick
  then show ?thesis using assms(2) by (simp add: back_to_items_def synced_def)
next
  case DownloadClick
  then show ?thesis using synced_update_totals [unfolded synced_def, of s] assms(1)
    by (simp add: download_start_def Let_def synced_def)
next
  case (DownloadTimer i)
  then show ?thesis using assms(2) by (simp add: download_timer_def synced_def)
next
  case (DownloadSettled i ok)
  then show ?thesis using assms(2)
    by (simp add: download_settled_def restore_styles_def Let_def synced_def split: dl_phase.split)
qed

lemma download_start_export_inv:
  assumes "export_inv s" shows "export_inv (download_start s)"
  using assms synced_update_totals [unfolded synced_def, of s]
  by (auto simp: export_inv_def synced_def download_start_def Let_def)

lemma download_timer_export_inv:
  assumes "export_inv s" shows "export_inv (download_timer i s)"
proof (cases "i < length (pending s) \<and> phase (pending s ! i) = Waiting")
  case True
  let ?new = "(pending s ! i)\<lparr>phase := Rendering (view_of s)\<rparr>"
  have t: "download_timer i s = s\<lparr>pending := (pending s)[i := ?new]\<rparr>"
    using True by (simp add: download_timer_def)
  show ?thesis unfolding export_inv_def
  proof
    assume h: "has_invoice_table (download_timer i s)"
    then have inv: "pending s \<noteq> [] \<longrightarrow> synced s"
      "\<forall>p \<in> set (pending s). \<forall>v. phase p = Rendering v \<longrightarrow> view_ok v"
      "\<forall>f \<in> set (pdfs s). view_ok (pdf_view f) \<and> pdf_opts f = export_opt"
      using assms t by (simp_all add: export_inv_def)
    have sy: "synced s" using inv(1) True by auto
    have "\<forall>p \<in> set ((pending s)[i := ?new]). \<forall>v. phase p = Rendering v \<longrightarrow> view_ok v"
    proof (intro ballI allI impI)
      fix p v
      assume p: "p \<in> set ((pending s)[i := ?new])" and ph: "phase p = Rendering v"
      have "p = ?new \<or> p \<in> set (pending s)" using set_update_subset_insert p by fastforce
      then show "view_ok v"
      proof
        assume "p = ?new"
        then show ?thesis using ph synced_view_ok [OF sy] by simp
      qed (use inv(2) ph in blast)
    qed
    moreover have "synced (s\<lparr>pending := (pending s)[i := ?new]\<rparr>)" using sy by (simp add: synced_def)
    ultimately show "(pending (download_timer i s) \<noteq> [] \<longrightarrow> synced (download_timer i s))
      \<and> (\<forall>p \<in> set (pending (download_timer i s)). \<forall>v. phase p = Rendering v \<longrightarrow> view_ok v)
      \<and> (\<forall>f \<in> set (pdfs (download_timer i s)). view_ok (pdf_view f) \<and> pdf_opts f = export_opt)"
      using inv(3) by (simp add: t)
  qed
next
  case False
  then have "download_timer i s = s" unfolding download_timer_def by meson
  with assms show ?thesis by simp
qed

lemma download_settled_export_inv:
  assumes "export_inv s" shows "export_inv (download_settled i ok s)"
proof (cases "i < length (pending s)")
  case True
  then have m: "pending s ! i \<in> set (pending s)" and ne: "pending s \<noteq> []" by auto
  have sub: "set (take i (pending s) @ drop (Suc i) (pending s)) \<subseteq> set (pending s)"
    using set_take_subset [of i "pending s"] set_drop_subset [of "Suc i" "pending s"] by auto
  show ?thesis
  proof (cases "phase (pending s ! i)")
    case Waiting
    then show ?thesis using assms True by (simp add: download_settled_def)
  next
    case (Rendering v)
    then have "has_invoice_table s \<Longrightarrow> view_ok v" using assms m by (auto simp: export_inv_def)
    then show ?thesis using assms True Rendering ne sub
      by (auto simp: export_inv_def synced_def download_settled_def restore_styles_def Let_def)
  qed
next
  case False
  then show ?thesis using assms by (simp add: download_settled_def)
qed

lemma export_inv_frame:
  assumes "export_inv s" and "pending s' = pending s" and "pdfs s' = pdfs s"
    and "has_invoice_table s' = has_invoice_table s"
    and "has_invoice_table s \<Longrightarrow> synced s \<Longrightarrow> synced s'"
  shows "export_inv s'"
  using assms by (auto simp: export_inv_def)

lemma step_export_inv_frame:
  assumes "pending (step e s) = pending s" and "pdfs (step e s) = pdfs s" and "export_inv s"
  shows "export_inv (step e s)"
  using assms step_synced [of s e] by (intro export_inv_frame [OF assms(3)]) simp_all

lemma step_export_inv:
  assumes "export_inv s" shows "export_inv (step e s)"
proof (cases e)
  case (Type f v)
  then show ?thesis using step_export_inv_frame [of e s] assms by simp
next
  case AddItemClick
  then show ?thesis using step_export_inv_frame [of e s] assms by simp
next
  case (ToPreviewClick t)
  then show ?thesis using step_export_inv_frame [of e s] assms by simp
next
  case BackClick
  then show ?thesis using step_export_inv_frame [of e s] assms by simp
next
  case DownloadClick
  then show ?thesis using download_start_export_inv [OF assms] by simp
next
  case (DownloadTimer i)
  then show ?thesis using download_timer_export_inv [OF assms] by simp
next
  case (DownloadSettled i ok)
  then show ?thesis using download_settled_export_inv [OF assms] by simp
qed

lemma reachable_export_inv: "reachable s \<Longrightarrow> export_inv s"
proof (induction rule: reachable.induct)
  case (start s)
  then show ?case by (simp add: initial_def export_inv_def)
next
  case (step s e)
  from step.IH show ?case by (rule step_export_inv)
qed

lemma settle_one:
  assumes "i < length (pending s)"
  shows "pending (run [DownloadTimer i, DownloadSettled i ok] s) = take i (pending s) @ drop (Suc i) (pending s)
         \<and> length (pdfs (run [DownloadTimer i, DownloadSettled i ok] s)) = length (pdfs s) + (if ok then 1 else 0)"
  using assms by (cases "phase (pending s ! i)") (simp_all add: download_timer_def download_settled_def Let_def)

lemma run_settle_events:
  "valid_schedule (length (pending s)) sched \<Longrightarrow>
   pending (run (settle_events sched) s) = []
   \<and> length (pdfs (run (settle_events sched) s)) = length (pdfs s) + length (filter snd sched)"
proof (induction sched arbitrary: s)
  case Nil
  then show ?case by (simp add: settle_events_def)
next
  case (Cons x sched)
  obtain i ok where x: "x = (i, ok)" by fastforce
  let ?s1 = "run [DownloadTimer i, DownloadSettled i ok] s"
  have i: "i < length (pending s)" and v: "valid_schedule (length (pending s) - 1) sched"
    using Cons.prems x by simp_all
  have one: "length (pending ?s1) = length (pending s) - 1
             \<and> length (pdfs ?s1) = length (pdfs s) + (if ok then 1 else 0)"
    using settle_one [OF i, of ok] i by simp
  have "run (settle_events (x # sched)) s = run (settle_events sched) ?s1"
    by (simp add: settle_events_def x)
  with one Cons.IH [of ?s1] v x show ?case by simp
qed

lemma run_add_events_export:
  assumes "has_invoice_table s" and "item_count s < max_items" and "accepted x"
  shows "invoice_rows (run (add_events x) s) = invoice_rows_of (items s @ [row_of x])
         \<and> pending (run (add_events x) s) = pending s \<and> pdfs (run (add_events x) s) = pdfs s"
  using assms by (cases x) (auto simp: add_events_def accepted_def row_of_def add_item_def Let_def update_totals_rows)

text \<open>
  C23. Every PDF saved in a reachable state of a page with an invoice table is
  consistent: it was made with the fixed export options, its table holds the copied
  item rows padded with blank rows to five, and its subtotal, tax and total are the
  texts \<open>updateTotals\<close> computes from exactly those rows (for the tax input of
  the time).
\<close>

theorem saved_pdfs_consistent:
  assumes "reachable s" and "has_invoice_table s" and "f \<in> set (pdfs s)"
  shows "pdf_opts f = export_opt
         \<and> v_rows (pdf_view f) = invoice_rows_of (rows_items (v_rows (pdf_view f)))
         \<and> (\<exists>t. (v_subtotal (pdf_view f), v_tax (pdf_view f), v_total (pdf_view f))
                  = totals_texts (rows_items (v_rows (pdf_view f))) t)"
  using reachable_export_inv [OF assms(1)] assms(2,3) by (auto simp: export_inv_def view_ok_def image_iff)

theorem saved_pdfs_consistent_witness:
  "let s = run (add_events (''Maize'', ''A'', ''50'', ''2'') @ [DownloadClick, DownloadTimer 0, DownloadSettled 0 True])
             sample_page in
   reachable s \<and> has_invoice_table s \<and> hd (pdfs s) \<in> set (pdfs s)
   \<and> v_rows (pdf_view (hd (pdfs s))) = invoice_rows_of (rows_items (v_rows (pdf_view (hd (pdfs s)))))"
proof -
  let ?a = "run (add_events (''Maize'', ''A'', ''50'', ''2'')) sample_page"
  let ?s = "run (add_events (''Maize'', ''A'', ''50'', ''2'') @ [DownloadClick, DownloadTimer 0, DownloadSettled 0 True])
             sample_page"
  have r: "reachable ?s" by (rule reachable_run [OF reachable.start [OF initial_sample_page]])
  have a: "pending ?a = [] \<and> pdfs ?a = [] \<and> has_invoice_table ?a"
    using run_add_events_export [of sample_page "(''Maize'', ''A'', ''50'', ''2'')"] accepted_maize
    by (simp add: sample_page_def max_items_def add_events_def add_item_def Let_def)
  have p: "pdfs ?s \<noteq> [] \<and> has_invoice_table ?s"
  proof
    show "pdfs ?s \<noteq> []" using a by (simp add: download_simps)
    show "has_invoice_table ?s" by (simp only: run_has_invoice_table) (simp add: sample_page_def)
  qed
  then have h: "hd (pdfs ?s) \<in> set (pdfs ?s)" by simp
  show ?thesis using saved_pdfs_consistent [OF r conjunct2 [OF p] h] r p h by (simp add: Let_def)
qed

text \<open>
  C24. Every suspended download handler runs to its end: whatever downloads are
  pending, when they are finished one after the other in any order (each one's timer
  fires, then its \<open>html2pdf\<close> promise settles), each with its own outcome, none is
  left pending and exactly one file is saved per download that succeeded.
\<close>

theorem pending_downloads_complete:
  assumes "valid_schedule (length (pending s)) sched"
  shows "pending (run (settle_events sched) s) = []
         \<and> length (pdfs (run (settle_events sched) s)) = length (pdfs s) + length (filter snd sched)"
  using assms by (rule run_settle_events)

theorem pending_downloads_complete_witness:
  "let s = run [DownloadClick, DownloadClick] sample_page in
   valid_schedule (length (pending s)) [(1, True), (0, False)]
   \<and> pending (run (settle_events [(1, True), (0, False)]) s) = []
   \<and> length (pdfs (run (settle_events [(1, True), (0, False)]) s)) = 1"
proof -
  let ?s = "run [DownloadClick, DownloadClick] sample_page"
  have l: "length (pending ?s) = 2" "pdfs ?s = []" by (simp_all add: sample_page_def)
  then have h: "valid_schedule (length (pending ?s)) [(1, True), (0, False)]" by simp
  show ?thesis using pending_downloads_complete [OF h] h l by (simp add: Let_def)
qed

text \<open>
  C25. The export does not block the page: an item added while the export waits for
  its timer appears in the saved PDF, while an item added after the timer has fired,
  during the rendering, does not.
\<close>

theorem export_shows_rows_at_render_time:
  assumes "has_invoice_table s" and "item_count s < max_items" and "accepted x"
  shows "let n = length (pending s);
           s1 = run (DownloadClick # add_events x @ [DownloadTimer n, DownloadSettled n True]) s;
           s2 = run ([DownloadClick, DownloadTimer n] @ add_events x @ [DownloadSettled n True]) s
         in v_rows (pdf_view (last (pdfs s1))) = invoice_rows_of (items s @ [row_of x])
            \<and> v_rows (pdf_view (last (pdfs s2))) = invoice_rows_of (items s)"
proof -
  let ?n = "length (pending s)"
  let ?d = "download_start s"
  have d: "has_invoice_table ?d" "item_count ?d < max_items" "items ?d = items s"
    using assms(1,2) by (simp_all add: download_start_def Let_def)
  let ?a = "run (add_events x) ?d"
  have a: "invoice_rows ?a = invoice_rows_of (items s @ [row_of x])" "pending ?a = pending ?d"
    using run_add_events_export [OF d(1,2) assms(3)] d(3) by simp_all
  have s1: "v_rows (pdf_view (last (pdfs (run [DownloadTimer ?n, DownloadSettled ?n True] ?a))))
            = invoice_rows_of (items s @ [row_of x])"
    using a by (simp add: download_simps view_of_def)
  let ?t = "download_timer ?n ?d"
  have t: "has_invoice_table ?t" "item_count ?t < max_items"
    "pending ?t = pending s @ [\<lparr>saved = capture_styles s, phase = Rendering (view_of ?d)\<rparr>]"
    using d by (simp_all add: download_timer_def)
  let ?b = "run (add_events x) ?t"
  have b: "pending ?b = pending ?t" using run_add_events_export [OF t(1,2) assms(3)] by simp
  have rows: "v_rows (view_of ?d) = invoice_rows_of (items s)"
    using update_totals_rows [OF assms(1)] by (simp add: view_of_def download_start_def Let_def)
  have s2: "v_rows (pdf_view (last (pdfs (download_settled ?n True ?b)))) = invoice_rows_of (items s)"
    using b t(3) rows by (simp add: download_simps)
  show ?thesis using s1 s2 by (simp add: Let_def)
qed

theorem export_shows_rows_at_render_time_witness:
  "has_invoice_table sample_page \<and> item_count sample_page < max_items \<and> accepted (''Maize'', ''A'', ''50'', ''2'') \<and>
   v_rows (pdf_view (last (pdfs (run (DownloadClick # add_events (''Maize'', ''A'', ''50'', ''2'')
                                       @ [DownloadTimer 0, DownloadSettled 0 True]) sample_page))))
     = [Item (make_row ''Maize'' ''A'' (Fin 50) (Fin 2)), Blank, Blank, Blank, Blank] \<and>
   v_rows (pdf_view (last (pdfs (run ([DownloadClick, DownloadTimer 0] @ add_events (''Maize'', ''A'', ''50'', ''2'')
                                       @ [DownloadSettled 0 True]) sample_page))))
     = [Blank, Blank, Blank, Blank, Blank]"
proof -
  have h: "has_invoice_table sample_page" "item_count sample_page < max_items"
    by (simp_all add: sample_page_def max_items_def)
  have r: "row_of (''Maize'', ''A'', ''50'', ''2'') = make_row ''Maize'' ''A'' (Fin 50) (Fin 2)"
    by (simp add: row_of_def input_eval)
  have e: "items sample_page = []" "pending sample_page = []" by (simp_all add: sample_page_def)
  show ?thesis
    using export_shows_rows_at_render_time [OF h accepted_maize] h accepted_maize r e
    by (simp add: Let_def invoice_rows_of_def numeral_eq_Suc)
qed

end
