(* ===== verification/Spec2Isabelle.thy ===== *)
theory Spec2Isabelle
  imports Export
begin

text \<open>
  \<^bold>\<open>A verification development of the invoice builder \<open>src/script.js\<close>.\<close>

  \<^bold>\<open>The program.\<close> One browser script. \<open>formatNumber\<close> (lines 10-13) prints a
  number with \<open>toFixed(2)\<close> and inserts thousands separators with a regular expression;
  \<open>formatDate\<close> (lines 2-7) prints \<open>DD/MM/YYYY\<close>. \<open>updateTotals\<close> (lines 16-61)
  re-reads the amount cell of every row of the item table, sums the parsed amounts,
  adds the parsed tax input, writes the three totals and copies the rows into the
  invoice table, padded with blank rows to five. The DOM-ready block (lines 63-227)
  keeps the counter \<open>itemCount\<close> and wires four click handlers: add an item (capped at
  five, validated, lines 72-111), go to the preview (copies the client fields, sets the
  invoice and due dates, lines 114-140), go back (lines 143-151), and download, an
  \<open>async\<close> handler that captures the page styles, switches to an export layout, waits
  1.5 s, has \<open>html2pdf\<close> render and save the invoice region, and writes the captured
  styles back (lines 154-225). The handlers communicate only through the DOM.

  \<^bold>\<open>The theories.\<close>
  \<^item> \<open>Prelude\<close>: strings as \<open>char\<close> lists, the naira sign, ECMAScript white space,
    \<open>trim\<close>, decimal digit strings with their round trip, and the collection
    \<open>eval_simps\<close> of rules that evaluate the model on concrete inputs.
  \<^item> \<open>Js_Number\<close>: the number values of JavaScript as \<open>jsnum\<close> (an exact rational,
    \<open>Infinity\<close>, \<open>-Infinity\<close>, \<open>NaN\<close>), \<open>+\<close>, \<open>*\<close>, \<open><=\<close>, \<open>|| 0\<close> and
    \<open>parseFloat\<close>, modelled from ECMA-262.
  \<^item> \<open>Number_Format\<close>: \<open>toFixed(2)\<close> (from ECMA-262), the separator regex of line
    12 translated position by position (\<open>ins_commas\<close>, \<open>lookahead3\<close>) and
    \<open>format_number\<close>; the reference grouping \<open>group3\<close>; the round trip through
    \<open>parseFloat\<close>.
  \<^item> \<open>Ledger\<close>: the row record \<open>item_row\<close> with its five cells, \<open>make_row\<close> (lines
    88-99), the amount read back from a cell (\<open>clean_amount\<close>, \<open>amount_of_row\<close>,
    lines 20-23), \<open>compute_totals\<close> and \<open>totals_texts\<close> (lines 17-33) and the padded
    invoice table \<open>invoice_rows_of\<close> (lines 37-59).
  \<^item> \<open>Dates\<close>: the ECMA-262 calendar (\<open>DayFromYear\<close>, the month table,
    \<open>MakeDay\<close>), \<open>setDate\<close> as the normalisation \<open>norm_date\<close>, the due date of
    lines 124-126 and \<open>format_date\<close>.
  \<^item> \<open>App\<close>: the page state \<open>dom\<close> (inputs, tables, texts, inline styles, alerts,
    suspended download handlers, saved files), one definition per handler
    (\<open>add_item\<close>, \<open>to_preview\<close>, \<open>back_to_items\<close>, \<open>download_start\<close>,
    \<open>download_timer\<close>, \<open>download_settled\<close>, with \<open>update_totals\<close>), the event
    type and \<open>step\<close>, runs as event lists and the inductive set of reachable states.
  \<^item> \<open>Export\<close>: the PDF export over whole runs: the invariant \<open>export_inv\<close>
    (the page is synced with its items while a download is pending, and every view
    being rendered and every saved file is consistent, \<open>view_ok\<close>), the
    schedules of resumptions (\<open>settle_events\<close>, \<open>valid_schedule\<close>) that finish
    the pending downloads in any order with any outcomes, and the
    interleaving of the export with the add-item handler.
  \<^item> \<open>Spec2Isabelle\<close>: this header and the properties that span the components.

  \<^bold>\<open>Correspondence.\<close> A handler is a function from the page state to the page state;
  the closure variable \<open>itemCount\<close> is the field \<open>item_count\<close>, the rows of
  \<open>#itemsPreviewTable\<close> are \<open>items\<close>, the text of \<open>#subtotal\<close> is
  \<open>subtotal_text\<close>, and so on. An \<open>alert\<close> appends its message to \<open>alerts\<close>. The
  download handler is split at its two \<open>await\<close>s: \<open>DownloadClick\<close> runs it to the
  timer, \<open>DownloadTimer i\<close> resumes the \<open>i\<close>-th suspended handler, which starts the
  rendering of the current invoice region, and \<open>DownloadSettled i ok\<close> resumes it when
  the library's promise settles, fulfilled or rejected. Since any event may come between
  these, runs of the page cover every interleaving that the event loop allows.

  \<^bold>\<open>What is proved.\<close> The add-item handler appends exactly one correct row or
  rejects the input with the right alert and no change (C1-C3); the counter agrees with
  the table, which never exceeds five rows (C4); additions are kept in order (C5). The
  totals of the specification's example are printed as it says (C6); a formatted
  amount reads back as the amount rounded to cents (C7); a malformed tax counts as zero
  (C8); the subtotal shown is the sum of the displayed amounts, each rounded to cents, for
  tables of up to five non-negative amounts below \<open>10^12\<close>, where the rounding of
  doubles cannot change the printed cents (C9), which can differ
  from the exact sum (C10). \<open>setDate\<close> refines \<open>MakeDay\<close> (C11) and the due date is
  a valid date ten days later (C12). Navigation keeps the ledger (C13), the two modes
  are exclusive (C14), the exported table has five rows (C15). A download restores the
  layout when it succeeds alone (C16), but not when the library fails (C17) nor when
  two downloads overlap (C18). The separator regex equals the conventional grouping
  (C19). \<open>setDate\<close> gives exactly the valid date whose day number is \<open>MakeDay\<close>'s,
  since day numbers of valid dates are injective (C20); printed dates read back (C21)
  and have the shape \<open>DD/MM/YYYY\<close> for four-digit years (C22). Every saved PDF is
  consistent with its own rows (C23), every pending download runs to its end, in any order and with
  any outcomes, saving one file per success (C24),
  and the PDF shows the rows of the page when the timer fires, not when the button was
  clicked (C25). Every row of the table is well formed: trimmed non-empty names and
  a positive price and quantity from which its cells are printed (C26).

  \<^bold>\<open>Bounds and termination.\<close> Numbers are exact: JavaScript's binary rounding is
  not modelled, so a tie such as 1.005, which is slightly below 1.005 as a double and
  prints as 1.00, prints as 1.01 in the model; the properties about formatting are
  stated for magnitudes below \<open>10^21\<close>, where \<open>toFixed\<close> uses fixed-point
  notation. For the same reason \<open>parseFloat\<close> keeps the exact decimal: a price
  \<open>1e-400\<close>, which the browser reads as 0 and rejects, is accepted by the model, and a
  half-cent product such as \<open>2.01 * 0.5\<close> prints as 1.01 where the browser prints
  1.00. The claims on the add handler are stated over the parsed values, and the claim
  on the printed subtotal (C9) is restricted to amounts where double rounding cannot
  change the printed cents. \<open>norm_date\<close> terminates by the lexicographic measure (days below the
  first of the month, days beyond the 28th); no fuel is needed anywhere.

  \<^bold>\<open>Not modelled.\<close> The page markup and CSS (not in the repository; the initial
  state only fixes what \<open>initial\<close> says), HTML parsing of the product and grade
  interpolated into \<open>innerHTML\<close>, the rasterisation and pagination of \<open>html2pdf\<close>
  (a saved file is the rendered view with the fixed options), \<open>console.log\<close>,
  \<open>window.scrollTo\<close> beyond the position it sets, the time of day, time zones and
  daylight saving, and the text of the quantity cell.

  \<^bold>\<open>Plan.\<close> Next: the exponent branch of \<open>toFixed\<close> (magnitudes of
  \<open>10^21\<close> and more) and the sign of the totals in reachable states; the text of
  the quantity cell (\<open>Number::toString\<close>).
\<close>

text \<open>
  The conformance of an item row: what the add-item handler guarantees of every row it
  appends (non-empty trimmed names, a positive quantity and a positive unit price from
  which the cells are formatted).
\<close>

definition row_ok :: "item_row \<Rightarrow> bool" where
  "row_ok r \<longleftrightarrow> product r \<noteq> [] \<and> grade r \<noteq> [] \<and> js_trim (product r) = product r
     \<and> js_trim (grade r) = grade r \<and> quantity r \<noteq> NaN \<and> \<not> js_le (quantity r) (Fin 0)
     \<and> (\<exists>u. u \<noteq> NaN \<and> \<not> js_le u (Fin 0) \<and> r = make_row (product r) (grade r) u (quantity r))"

lemma parse_float_half_cent: "parse_float ''0.005'' = Fin (1 / 200)"
  by (simp add: parse_float_def parse_unsigned_def is_digit_def js_space_def exponent_part_def
      decimal_value_def digits_val_def digit_val_def)

text \<open>
  C10. Re-parsing the displayed amounts makes the subtotal differ from the exact sum
  of the line amounts: two items of 0.005 each are shown with amount 0.01, and the
  subtotal shows 0.02 while the exact sum, formatted, is 0.01.
\<close>

theorem subtotal_differs_from_exact_sum:
  "let xs = [(''Seed'', ''A'', ''0.005'', ''1''), (''Seed'', ''B'', ''0.005'', ''1'')];
       s = run (concat (map add_events xs)) sample_page
   in map (amount_cell) (items s) = [naira # ''0.01'', naira # ''0.01''] \<and>
      subtotal_text s = ''0.02'' \<and> format_number (Fin (1 / 200 * 1 + 1 / 200 * 1)) = ''0.01''"
proof -
  let ?x1 = "(''Seed'', ''A'', ''0.005'', ''1'')" and ?x2 = "(''Seed'', ''B'', ''0.005'', ''1'')"
  have acc: "accepted ?x1" "accepted ?x2"
    by (simp_all add: accepted_def input_eval parse_float_half_cent)
  let ?s1 = "run (add_events ?x1) sample_page"
  have s1: "items ?s1 = [row_of ?x1] \<and> item_count ?s1 = 1"
    using run_add_events [OF _ acc(1), of sample_page] by (simp add: sample_page_def max_items_def)
  let ?s2 = "run (add_events ?x2) ?s1"
  have s2items: "items ?s2 = [row_of ?x1, row_of ?x2]"
    using run_add_events [OF _ acc(2), of ?s1] s1 by (simp add: max_items_def)
  have rows: "row_of ?x1 = make_row ''Seed'' ''A'' (Fin (1 / 200)) (Fin 1)"
             "row_of ?x2 = make_row ''Seed'' ''B'' (Fin (1 / 200)) (Fin 1)"
    by (simp_all add: row_of_def input_eval parse_float_half_cent)
  have f: "format_number (Fin (1 / 200)) = ''0.01''" and f2: "format_number (Fin (1 / 50)) = ''0.02''"
    and f3: "format_number (Fin (1 / 100)) = ''0.01''"
    using format_number_fin [of "1 / 200"] format_number_fin [of "1 / 50"] format_number_fin [of "1 / 100"]
    by (simp_all add: eval_simps)
  have tot: "(subtotal_text ?s2, tax_text ?s2, total_text ?s2) = totals_texts (items ?s2) (tax_input ?s1)"
    using run_add_events_totals [OF _ acc(2), of ?s1] s1 by (simp add: max_items_def)
  have tax: "tax_input ?s1 = []"
    by (simp add: add_events_def add_item_def Let_def sample_page_def)
  have "list_all2 (\<lambda>r x. amount_cell r = naira # format_number (Fin x) \<and> \<bar>x\<bar> < 10 ^ 21)
          [row_of ?x1, row_of ?x2] [1 / 200, 1 / 200]"
    by (simp add: rows make_row_def)
  then have "fst (compute_totals [row_of ?x1, row_of ?x2] []) = Fin (sum_list (map round2 [1 / 200, 1 / 200]))"
    by (rule subtotal_formatted)
  moreover have "round2 (1 / 200) = 1 / 100" by (simp add: round2_def eval_simps)
  ultimately have "fst (compute_totals [row_of ?x1, row_of ?x2] []) = Fin (1 / 50)" by simp
  then have "subtotal_text ?s2 = ''0.02''"
    using tot tax s2items f2 by (simp add: totals_texts_def split: prod.splits)
  then show ?thesis
    using s2items f f3 by (simp add: rows make_row_def)
qed

lemma add_item_rows_ok:
  assumes "list_all row_ok (items s)" shows "list_all row_ok (items (add_item s))"
proof (cases "max_items \<le> item_count s")
  case True
  then show ?thesis using assms by (simp add: add_item_full)
next
  case False
  then show ?thesis using assms
    by (auto simp: add_item_def Let_def row_ok_def) (metis or_zero_not_NaN)
qed

lemma reachable_rows_ok: "reachable s \<Longrightarrow> list_all row_ok (items s)"
proof (induction rule: reachable.induct)
  case (start s)
  then show ?case by (simp add: initial_def)
next
  case (step s e)
  then show ?case using step_keeps_items [of e s] add_item_rows_ok [of s] by (cases "e = AddItemClick") auto
qed

text \<open>
  C26. Every row of the item table in a reachable state is well formed: it is a row
  built by the add-item handler from a non-empty, trimmed product and grade and from a
  unit price and a quantity that are numbers (not \<open>NaN\<close>) greater than zero, with
  the price and amount cells formatted from them.
\<close>

theorem reachable_rows_well_formed:
  assumes "reachable s" and "r \<in> set (items s)"
  shows "product r \<noteq> [] \<and> grade r \<noteq> [] \<and> js_trim (product r) = product r \<and> js_trim (grade r) = grade r
         \<and> (\<exists>u q. r = make_row (product r) (grade r) u q \<and> u \<noteq> NaN \<and> q \<noteq> NaN
                  \<and> \<not> js_le u (Fin 0) \<and> \<not> js_le q (Fin 0))"
proof -
  have "row_ok r" using reachable_rows_ok [OF assms(1)] assms(2) by (simp add: list_all_iff)
  then obtain u where "u \<noteq> NaN" "\<not> js_le u (Fin 0)" "r = make_row (product r) (grade r) u (quantity r)"
    and "product r \<noteq> []" "grade r \<noteq> []" "js_trim (product r) = product r" "js_trim (grade r) = grade r"
    and "quantity r \<noteq> NaN" "\<not> js_le (quantity r) (Fin 0)"
    unfolding row_ok_def by blast
  then show ?thesis by blast
qed

theorem reachable_rows_well_formed_witness:
  "let s = run (concat (map add_events (replicate 5 (''Maize'', ''A'', ''50'', ''2'')))) sample_page in
   reachable s \<and> hd (items s) \<in> set (items s) \<and> product (hd (items s)) \<noteq> []"
proof -
  let ?s = "run (concat (map add_events (replicate 5 (''Maize'', ''A'', ''50'', ''2'')))) sample_page"
  have r: "reachable ?s" and l: "length (items ?s) = 5" using five_items_page by simp_all
  then have h: "hd (items ?s) \<in> set (items ?s)" by (cases "items ?s") simp_all
  show ?thesis using reachable_rows_well_formed [OF r h] r h by (simp add: Let_def)
qed

end
